theory Spec2Isabelle
  imports Complex_Main
begin

section \<open>Amounts and configuration\<close>

text \<open>
  The engine lives in \<^verbatim>\<open>src/bot.ts\<close> (class \<^verbatim>\<open>Bot\<close>). Monetary quantities of the quote
  token are \<^verbatim>\<open>TokenAmount\<close> values of the exchange SDK: a raw integer count of the
  token's smallest unit (a \<^verbatim>\<open>BN\<close>). The SDK's \<^verbatim>\<open>add\<close>, \<^verbatim>\<open>subtract\<close>, \<^verbatim>\<open>gt\<close> and \<^verbatim>\<open>lt\<close> work
  on the raw counts, \<^verbatim>\<open>x.mul(p).numerator\<close> is the product of the raw count with the
  whole number \<^verbatim>\<open>p\<close>, and \<^verbatim>\<open>BN.div\<close> is integer division that truncates toward zero.
  An amount is therefore an \<open>int\<close> of raw units.
\<close>

type_synonym amount = int
type_synonym mint = string

definition bn_div :: "int \<Rightarrow> int \<Rightarrow> int" where
  "bn_div a b = sgn a * sgn b * (\<bar>a\<bar> div \<bar>b\<bar>)"

text \<open>
  The fields of \<^verbatim>\<open>BotConfig\<close> that the decision logic reads. Percentages are whole
  numbers (the SDK rejects a fractional multiplier); intervals and durations are whole
  numbers of milliseconds; retry counts and the concurrency cap are counts.
\<close>

record BotConfig =
  quoteAmount :: amount
  maxTokensAtTheTime :: nat
  useSnipeList :: bool
  maxBuyRetries :: nat
  maxSellRetries :: nat
  takeProfit :: int
  stopLoss :: int
  trailingStopLoss :: bool
  skipSellingIfLostMoreThan :: int
  priceCheckInterval :: int
  priceCheckDuration :: int
  filterCheckInterval :: int
  filterCheckDuration :: int
  consecutiveMatchCount :: int

section \<open>The exit-signal loop (\<^verbatim>\<open>waitForSellSignal\<close>)\<close>

text \<open>
  The per-mint stop-loss watermark map (\<^verbatim>\<open>Bot.stopLoss\<close>, a \<^verbatim>\<open>Map<string, TokenAmount>\<close>).
\<close>

type_synonym watermarks = "mint \<rightharpoonup> amount"

text \<open>
  What the quote step of one round yields: \<open>Some a\<close> is the amount \<^verbatim>\<open>amountOut\<close> computed
  from the fetched pool state, \<open>None\<close> is a fetch or computation that threw (the round's
  \<^verbatim>\<open>catch\<close> logs it). The environment is the sequence of these, by round number; the
  held amount \<^verbatim>\<open>amountIn\<close> and the pool keys enter the check through the quote step only.
\<close>

type_synonym quotes = "nat \<Rightarrow> amount option"

text \<open>Lines 481-483: the take-profit threshold.\<close>

definition takeProfitAmount :: "BotConfig \<Rightarrow> amount" where
  "takeProfitAmount cfg =
     (let profitFraction = bn_div (quoteAmount cfg * takeProfit cfg) 100
      in quoteAmount cfg + profitFraction)"

text \<open>Lines 487-489: the stop-loss threshold computed when the mint has no watermark.\<close>

definition initialStopLoss :: "BotConfig \<Rightarrow> amount" where
  "initialStopLoss cfg =
     (let lossFraction = bn_div (quoteAmount cfg * stopLoss cfg) 100
      in quoteAmount cfg - lossFraction)"

text \<open>
  Lines 514-527: the trailing stop. The result is the local variable \<^verbatim>\<open>stopLoss\<close> and
  the watermark map after the step.
\<close>

definition trailing :: "BotConfig \<Rightarrow> mint \<Rightarrow> amount \<Rightarrow> watermarks \<Rightarrow> amount \<Rightarrow> amount \<times> watermarks" where
  "trailing cfg key stop m amountOut =
     (if trailingStopLoss cfg then
        (let trailingLossFraction = bn_div (amountOut * stopLoss cfg) 100;
             trailingStop = amountOut - trailingLossFraction
         in if trailingStop > stop then (trailingStop, m(key \<mapsto> trailingStop)) else (stop, m))
      else (stop, m))"

text \<open>Lines 529-535: the max-loss cutoff amount and its test.\<close>

definition stopSellingAmount :: "BotConfig \<Rightarrow> amount" where
  "stopSellingAmount cfg = bn_div (quoteAmount cfg * skipSellingIfLostMoreThan cfg) 100"

definition lostTooMuch :: "BotConfig \<Rightarrow> amount \<Rightarrow> bool" where
  "lostTooMuch cfg amountOut =
     (skipSellingIfLostMoreThan cfg > 0 \<and> amountOut < stopSellingAmount cfg)"

text \<open>
  The three ways the body of a round that obtained a quote is left: \<^verbatim>\<open>return false\<close>
  (line 542), \<^verbatim>\<open>break\<close> (lines 553 and 558), or falling through to the sleep and the
  loop test. Each carries the watermark map as the round leaves it; falling through also
  carries the local \<^verbatim>\<open>stopLoss\<close>.
\<close>

datatype round_result =
    ReturnFalse watermarks
  | Break watermarks
  | NextRound amount watermarks

definition check_round :: "BotConfig \<Rightarrow> mint \<Rightarrow> amount \<Rightarrow> amount \<Rightarrow> watermarks \<Rightarrow> amount \<Rightarrow> round_result" where
  "check_round cfg key tp stop m amountOut =
     (case trailing cfg key stop m amountOut of
        (stop', m') \<Rightarrow>
          if lostTooMuch cfg amountOut then ReturnFalse (m'(key := None))
          else if amountOut < stop' then Break (m'(key := None))
          else if amountOut > tp then Break (m'(key := None))
          else NextRound stop' m')"

text \<open>
  The loop test \<^verbatim>\<open>timesChecked < timesToCheck\<close> bounds the number of rounds: while it
  holds, the distance of the counter to the ceiling of \<^verbatim>\<open>timesToCheck\<close> shrinks.
\<close>

lemma more_rounds_decreases:
  fixes timesToCheck :: rat
  assumes "of_nat (Suc k) < timesToCheck"
  shows "nat \<lceil>timesToCheck\<rceil> - Suc k < nat \<lceil>timesToCheck\<rceil> - k"
proof -
  have "of_int (int (Suc k)) < timesToCheck"
    using assms by simp
  then have "int (Suc k) < \<lceil>timesToCheck\<rceil>"
    by (simp only: less_ceiling_iff)
  then show ?thesis
    by linarith
qed

text \<open>
  Lines 499-569: the \<^verbatim>\<open>do ... while (timesChecked < timesToCheck)\<close> loop and the final
  \<^verbatim>\<open>return true\<close>. \<^verbatim>\<open>timesToCheck\<close> is a quotient of two numbers and need not be whole, so
  it is a rational; the counter is compared with it after every round (\<^verbatim>\<open>finally\<close>
  increments it also when the round threw). For whole numbers of milliseconds below
  \<open>2^53\<close> the rounded quotient of the source compares with the whole counter as the exact
  quotient does. The sleep between rounds only waits.
\<close>

function exitLoop ::
  "BotConfig \<Rightarrow> quotes \<Rightarrow> mint \<Rightarrow> rat \<Rightarrow> amount \<Rightarrow> nat \<Rightarrow> amount \<Rightarrow> watermarks \<Rightarrow> bool \<times> watermarks" where
  "exitLoop cfg qs key timesToCheck tp timesChecked stop m =
     (case qs timesChecked of
        None \<Rightarrow>
          if of_nat (Suc timesChecked) < timesToCheck
          then exitLoop cfg qs key timesToCheck tp (Suc timesChecked) stop m
          else (True, m)
      | Some amountOut \<Rightarrow>
          (case check_round cfg key tp stop m amountOut of
             ReturnFalse m' \<Rightarrow> (False, m')
           | Break m' \<Rightarrow> (True, m')
           | NextRound stop' m' \<Rightarrow>
               if of_nat (Suc timesChecked) < timesToCheck
               then exitLoop cfg qs key timesToCheck tp (Suc timesChecked) stop' m'
               else (True, m')))"
  by pat_completeness auto

termination
  by (relation "measure (\<lambda>(cfg, qs, key, timesToCheck, tp, timesChecked, stop, m).
        nat \<lceil>timesToCheck\<rceil> - timesChecked)")
     (auto intro: more_rounds_decreases)

declare exitLoop.simps [simp del]

text \<open>
  Lines 475-570. The guard returns at once when either number is zero; otherwise the
  thresholds are fixed, the watermark is created or reused, and the loop runs from
  round 0.
\<close>

definition waitForSellSignal :: "BotConfig \<Rightarrow> quotes \<Rightarrow> mint \<Rightarrow> watermarks \<Rightarrow> bool \<times> watermarks" where
  "waitForSellSignal cfg qs key m =
     (if priceCheckDuration cfg = 0 \<or> priceCheckInterval cfg = 0 then (True, m)
      else
        (let timesToCheck = of_int (priceCheckDuration cfg) / of_int (priceCheckInterval cfg);
             tp = takeProfitAmount cfg
         in case m key of
              None \<Rightarrow>
                exitLoop cfg qs key timesToCheck tp 0 (initialStopLoss cfg)
                  (m(key \<mapsto> initialStopLoss cfg))
            | Some stop \<Rightarrow> exitLoop cfg qs key timesToCheck tp 0 stop m))"

section \<open>The qualification loop (\<^verbatim>\<open>filterMatch\<close>)\<close>

text \<open>
  What one call of the external predicate \<^verbatim>\<open>filters.execute\<close> yields: it resolves to
  true, resolves to false, or rejects. The environment is the sequence of these, by
  round number.
\<close>

datatype filter_result = Match | NoMatch | Throws

text \<open>The exception that a rejecting predicate raises.\<close>

datatype exn = PredicateError

text \<open>
  Lines 448-472. The round is a \<^verbatim>\<open>try\<close> with a \<^verbatim>\<open>finally\<close> and no \<^verbatim>\<open>catch\<close>: when the
  predicate rejects, \<^verbatim>\<open>finally\<close> increments the counter and the exception then leaves the
  loop and the function; \<^verbatim>\<open>return true\<close> also leaves through \<^verbatim>\<open>finally\<close>.
\<close>

function filterLoop ::
  "BotConfig \<Rightarrow> (nat \<Rightarrow> filter_result) \<Rightarrow> rat \<Rightarrow> nat \<Rightarrow> int \<Rightarrow> exn + bool" where
  "filterLoop cfg fs timesToCheck timesChecked matchCount =
     (case fs timesChecked of
        Throws \<Rightarrow> Inl PredicateError
      | Match \<Rightarrow>
          if consecutiveMatchCount cfg \<le> matchCount + 1 then Inr True
          else if of_nat (Suc timesChecked) < timesToCheck
          then filterLoop cfg fs timesToCheck (Suc timesChecked) (matchCount + 1)
          else Inr False
      | NoMatch \<Rightarrow>
          if of_nat (Suc timesChecked) < timesToCheck
          then filterLoop cfg fs timesToCheck (Suc timesChecked) 0
          else Inr False)"
  by pat_completeness auto

termination
  by (relation "measure (\<lambda>(cfg, fs, timesToCheck, timesChecked, matchCount).
        nat \<lceil>timesToCheck\<rceil> - timesChecked)")
     (auto intro: more_rounds_decreases)

declare filterLoop.simps [simp del]

text \<open>Lines 433-473.\<close>

definition filterMatch :: "BotConfig \<Rightarrow> (nat \<Rightarrow> filter_result) \<Rightarrow> exn + bool" where
  "filterMatch cfg fs =
     (if filterCheckInterval cfg = 0 \<or> filterCheckDuration cfg = 0 then Inr True
      else
        (let timesToCheck = of_int (filterCheckDuration cfg) / of_int (filterCheckInterval cfg)
         in filterLoop cfg fs timesToCheck 0 0))"

section \<open>Trades, journal and the state of the bot\<close>

text \<open>
  Modelled from the spec: the class \<^verbatim>\<open>Trade\<close> of \<^verbatim>\<open>./helpers\<close> is not among the sources.
  Section 3 of the specification gives its states \<open>Idle\<close>, \<open>Started\<close>, \<open>Opened\<close> and
  \<open>Closed\<close>; opening records the entry amount and fee; closing records the exit amount,
  the exit fee and a closure reason, and computes the profit as exit amount minus entry
  amount minus fees; completing a trade tags it with the next sequence id and the balance
  at that moment and appends it to the journal. Amounts of this bookkeeping are
  JavaScript numbers; they are rationals here, so rounding is not part of the model.
\<close>

datatype trade_state = Idle | Started | Opened | Closed

record Trade =
  tradeMint :: mint
  state :: trade_state
  entryAmount :: rat
  entryFee :: rat
  exitAmount :: rat
  exitFee :: rat
  reason :: string
  profit :: rat

text \<open>Modelled from the spec: \<^verbatim>\<open>new Trade(mint, logFilename)\<close>, a trade in state \<open>Idle\<close>.\<close>

definition newTrade :: "mint \<Rightarrow> Trade" where
  "newTrade key =
     \<lparr>tradeMint = key, state = Idle, entryAmount = 0, entryFee = 0,
      exitAmount = 0, exitFee = 0, reason = [], profit = 0\<rparr>"

text \<open>Modelled from the spec: \<^verbatim>\<open>Trade.transitionStart()\<close>, which marks the start of an attempt.\<close>

definition transitionStart :: "Trade \<Rightarrow> Trade" where
  "transitionStart t = t\<lparr>state := Started\<rparr>"

text \<open>
  Modelled from the spec: \<^verbatim>\<open>Trade.close(exitAmount, exitFee, reason)\<close>, which also computes
  the profit read afterwards as \<^verbatim>\<open>trade.profit\<close>.
\<close>

definition close :: "Trade \<Rightarrow> rat \<Rightarrow> rat \<Rightarrow> string \<Rightarrow> Trade" where
  "close t amount fee why =
     t\<lparr>state := Closed, exitAmount := amount, exitFee := fee, reason := why,
       profit := amount - entryAmount t - (entryFee t + fee)\<rparr>"

record journal_entry =
  entryId :: nat
  entryBalance :: rat
  entryTrade :: Trade

text \<open>
  Modelled from the spec: \<^verbatim>\<open>Trade.completeAndLog(balance, id)\<close>. The write can fail
  (section 4.5, step 9); the caller only logs a warning then, and nothing is appended.
\<close>

definition completeAndLog :: "bool \<Rightarrow> Trade \<Rightarrow> rat \<Rightarrow> nat \<Rightarrow> journal_entry list \<Rightarrow> journal_entry list" where
  "completeAndLog writeOk t bal n jnl =
     (if writeOk then jnl @ [\<lparr>entryId = n, entryBalance = bal, entryTrade = t\<rparr>] else jnl)"

text \<open>
  The mutable fields of \<^verbatim>\<open>Bot\<close> (lines 68-78), and the journal file it appends to. The
  semaphore is its number of available permits; the field \<^verbatim>\<open>stopLoss\<close> of the class is
  \<open>stopLossMap\<close> here, since the configuration has a field of that name.
\<close>

record Bot =
  balance :: rat
  tradesCount :: nat
  trades :: "mint \<rightharpoonup> Trade"
  permits :: int
  sellExecutionCount :: int
  stopLossMap :: watermarks
  journal :: "journal_entry list"

text \<open>Lines 80-97: the constructor.\<close>

definition newBot :: "BotConfig \<Rightarrow> Bot" where
  "newBot cfg =
     \<lparr>balance = 0, tradesCount = 0, trades = Map.empty,
      permits = int (maxTokensAtTheTime cfg), sellExecutionCount = 0,
      stopLossMap = Map.empty, journal = []\<rparr>"

text \<open>
  A \<^verbatim>\<open>try\<close> block either completes (by running to its end or by \<^verbatim>\<open>return\<close>) or throws;
  both carry the state reached.
\<close>

datatype 'a try_result = Completed 'a | Thrown 'a

text \<open>The state that a block ends in, whichever way it is left.\<close>

primrec reached :: "'a try_result \<Rightarrow> 'a" where
  "reached (Completed x) = x"
| "reached (Thrown x) = x"

text \<open>What one call of \<^verbatim>\<open>swap\<close> yields: a confirmed result, an unconfirmed one, or an exception.\<close>

datatype swap_result = Confirmed | Unconfirmed | SwapThrew

section \<open>Admission and the buy pipeline (\<^verbatim>\<open>buy\<close>)\<close>

text \<open>Lines 147-148.\<close>

definition numberOfActionsBeingProcessed :: "BotConfig \<Rightarrow> Bot \<Rightarrow> int" where
  "numberOfActionsBeingProcessed cfg b =
     int (maxTokensAtTheTime cfg) - permits b + sellExecutionCount b"

text \<open>\<^verbatim>\<open>Semaphore.isLocked\<close>: no permit is available.\<close>

definition isLocked :: "Bot \<Rightarrow> bool" where
  "isLocked b = (permits b \<le> 0)"

text \<open>
  Lines 149-157: the admission test and, when it passes, \<^verbatim>\<open>semaphore.acquire\<close>. \<open>None\<close>
  is the early \<^verbatim>\<open>return\<close>. The test has just seen a free permit and nothing suspends
  between the test and the acquisition, so \<^verbatim>\<open>acquire\<close> takes the permit at once.
\<close>

definition tryAcquire :: "BotConfig \<Rightarrow> Bot \<Rightarrow> Bot option" where
  "tryAcquire cfg b =
     (if isLocked b \<or> numberOfActionsBeingProcessed cfg b \<ge> int (maxTokensAtTheTime cfg)
      then None
      else Some (b\<lparr>permits := permits b - 1\<rparr>))"

text \<open>Line 226: \<^verbatim>\<open>semaphore.release\<close>.\<close>

definition release :: "Bot \<Rightarrow> Bot" where
  "release b = b\<lparr>permits := permits b + 1\<rparr>"

text \<open>
  What the environment answers during one call of \<^verbatim>\<open>buy\<close>: whether the mint is in the
  snipe list, whether market, token account and pool keys resolve (lines 160-164; they
  throw otherwise), the predicate's answers and the swap results by attempt.
\<close>

record buy_env =
  inSnipeList :: bool
  resolved :: bool
  filterResults :: "nat \<Rightarrow> filter_result"
  buySwaps :: "nat \<Rightarrow> swap_result"

text \<open>
  Lines 179-221: the retry loop, from attempt \<open>i\<close> with \<open>n\<close> attempts left. A confirmed
  result breaks; an unconfirmed one and an exception (caught inside the loop) go on to
  the next attempt. The result says whether the loop was left by \<^verbatim>\<open>break\<close>; the loop
  changes no field of the bot.
\<close>

fun buyRetries :: "(nat \<Rightarrow> swap_result) \<Rightarrow> nat \<Rightarrow> nat \<Rightarrow> bool" where
  "buyRetries swaps i 0 = False"
| "buyRetries swaps i (Suc n) =
     (case swaps i of
        Confirmed \<Rightarrow> True
      | Unconfirmed \<Rightarrow> buyRetries swaps (Suc i) n
      | SwapThrew \<Rightarrow> buyRetries swaps (Suc i) n)"

text \<open>
  Lines 159-221: the \<^verbatim>\<open>try\<close> block. Nothing after the retry loop looks at how the loop
  was left.
\<close>

definition buyTry :: "BotConfig \<Rightarrow> buy_env \<Rightarrow> mint \<Rightarrow> Bot \<Rightarrow> Bot try_result" where
  "buyTry cfg env key b =
     (if \<not> resolved env then Thrown b
      else
        (case (if useSnipeList cfg then Inr True else filterMatch cfg (filterResults env)) of
           Inl e \<Rightarrow> Thrown b
         | Inr False \<Rightarrow> Completed b
         | Inr True \<Rightarrow>
             (let trade = transitionStart (newTrade key);
                  b' = b\<lparr>trades := (trades b)(key \<mapsto> trade)\<rparr>;
                  confirmed = buyRetries (buySwaps env) 0 (maxBuyRetries cfg)
              in Completed b')))"

text \<open>
  Lines 134-228. The pre-buy delay only waits. The \<^verbatim>\<open>catch\<close> deletes the mint's entry of
  the active-trades map; \<^verbatim>\<open>finally\<close> releases the permit.
\<close>

definition buy :: "BotConfig \<Rightarrow> buy_env \<Rightarrow> mint \<Rightarrow> Bot \<Rightarrow> Bot" where
  "buy cfg env key b =
     (if useSnipeList cfg \<and> \<not> inSnipeList env then b
      else
        (case tryAcquire cfg b of
           None \<Rightarrow> b
         | Some b1 \<Rightarrow>
             release
               (case buyTry cfg env key b1 of
                  Completed b2 \<Rightarrow> b2
                | Thrown b2 \<Rightarrow> b2\<lparr>trades := (trades b2)(key := None)\<rparr>)))"

section \<open>The sell pipeline (\<^verbatim>\<open>sell\<close>)\<close>

text \<open>
  What the environment answers during one call of \<^verbatim>\<open>sell\<close>: whether the pool store knows
  the mint, the held raw amount, whether market and pool keys resolve (lines 261-262;
  they throw otherwise), the quotes of each attempt's exit-signal check, the swap result
  of each attempt, what \<^verbatim>\<open>updateBalance\<close> reads (\<open>Some\<close> the sum of the two balances, \<open>None\<close>
  when one of its two reads rejects), and whether the journal write succeeds.
\<close>

record sell_env =
  poolFound :: bool
  heldAmount :: int
  keysResolved :: bool
  sellQuotes :: "nat \<Rightarrow> quotes"
  sellSwaps :: "nat \<Rightarrow> swap_result"
  newBalance :: "rat option"
  journalWriteOk :: bool

text \<open>
  Lines 268-317: the retry loop, from attempt \<open>i\<close> with \<open>n\<close> attempts left. Every attempt
  first runs the exit-signal check on the watermark map; a false answer returns from
  \<^verbatim>\<open>sell\<close>, a confirmed swap breaks, anything else goes on to the next attempt. Both
  exits lead to \<^verbatim>\<open>finally\<close> with the same state: \<^verbatim>\<open>swap\<close> does not call \<^verbatim>\<open>swap_log\<close>, so a
  confirmed swap changes no field of the bot.
\<close>

fun sellRetries :: "BotConfig \<Rightarrow> sell_env \<Rightarrow> mint \<Rightarrow> nat \<Rightarrow> nat \<Rightarrow> Bot \<Rightarrow> Bot" where
  "sellRetries cfg env key i 0 b = b"
| "sellRetries cfg env key i (Suc n) b =
     (case waitForSellSignal cfg (sellQuotes env i) key (stopLossMap b) of
        (shouldSell, m') \<Rightarrow>
          (let b' = b\<lparr>stopLossMap := m'\<rparr>
           in if \<not> shouldSell then b'
              else
                (case sellSwaps env i of
                   Confirmed \<Rightarrow> b'
                 | Unconfirmed \<Rightarrow> sellRetries cfg env key (Suc i) n b'
                 | SwapThrew \<Rightarrow> sellRetries cfg env key (Suc i) n b')))"

text \<open>
  Lines 238-317: the \<^verbatim>\<open>try\<close> block. The local \<^verbatim>\<open>trade\<close> is the object stored in the
  active-trades map under the mint, so a change of it is a change of that entry.
\<close>

definition sellTry :: "BotConfig \<Rightarrow> sell_env \<Rightarrow> mint \<Rightarrow> Bot \<Rightarrow> Bot try_result" where
  "sellTry cfg env key b =
     (if \<not> poolFound env then Completed b
      else if heldAmount env = 0 then Completed b
      else if \<not> keysResolved env then Thrown b
      else
        (let b' = (case trades b key of
                     None \<Rightarrow> b
                   | Some t \<Rightarrow> b\<lparr>trades := (trades b)(key \<mapsto> transitionStart t)\<rparr>)
         in Completed (sellRetries cfg env key 0 (maxSellRetries cfg) b')))"

text \<open>Lines 318-323: the \<^verbatim>\<open>catch\<close> block.\<close>

definition sellCatch :: "mint \<Rightarrow> Bot \<Rightarrow> Bot" where
  "sellCatch key b =
     (case trades b key of
        None \<Rightarrow> b
      | Some t \<Rightarrow>
          (let t' = close t 0 0 ''sell_failed''
           in b\<lparr>trades := (trades b)(key \<mapsto> t'), balance := balance b + profit t'\<rparr>))"

text \<open>
  Lines 115-119 and 324-335: the \<^verbatim>\<open>finally\<close> block. It starts with
  \<^verbatim>\<open>await this.updateBalance()\<close>, outside any \<^verbatim>\<open>try\<close>: when one of the two balance reads
  rejects, the balance is not assigned, the rest of the block is skipped and the
  exception leaves \<^verbatim>\<open>sell\<close>. Otherwise the balance is overwritten with the one read, the
  trade (if the mint has one) is journaled under the next sequence id and deleted from
  the active-trades map, and the count of sells in flight is decremented.
\<close>

definition sellFinally :: "sell_env \<Rightarrow> mint \<Rightarrow> Bot \<Rightarrow> Bot try_result" where
  "sellFinally env key b =
     (case newBalance env of
        None \<Rightarrow> Thrown b
      | Some bal \<Rightarrow>
          (let b1 = b\<lparr>balance := bal\<rparr>;
               b2 = (case trades b1 key of
                       None \<Rightarrow> b1
                     | Some t \<Rightarrow>
                         b1\<lparr>tradesCount := tradesCount b1 + 1,
                            journal := completeAndLog (journalWriteOk env) t (balance b1)
                                         (tradesCount b1 + 1) (journal b1),
                            trades := (trades b1)(key := None)\<rparr>)
           in Completed (b2\<lparr>sellExecutionCount := sellExecutionCount b2 - 1\<rparr>)))"

text \<open>
  Lines 230-336. The pre-sell delay only waits. The result is \<open>Completed\<close> when \<^verbatim>\<open>sell\<close>
  returns and \<open>Thrown\<close> when the exception of the \<^verbatim>\<open>finally\<close> block leaves it.
\<close>

definition sell :: "BotConfig \<Rightarrow> sell_env \<Rightarrow> mint \<Rightarrow> Bot \<Rightarrow> Bot try_result" where
  "sell cfg env key b =
     (let b0 = b\<lparr>sellExecutionCount := sellExecutionCount b + 1\<rparr>
      in sellFinally env key
           (case sellTry cfg env key b0 of
              Completed b1 \<Rightarrow> b1
            | Thrown b1 \<Rightarrow> sellCatch key b1))"

section \<open>Interleaved buys and sells\<close>

text \<open>
  Tasks run on one cooperative scheduler and suspend only at an \<^verbatim>\<open>await\<close>. Between two
  suspensions a buy task tests and acquires (\<open>tryAcquire\<close>) or releases (\<open>release\<close>), a
  sell task increments or decrements \<^verbatim>\<open>sellExecutionCount\<close>, and anything else a task
  does leaves the permits and that counter alone. A state of the system is the bot
  together with the number of buy tasks that have acquired and not yet released, and the
  number of sell tasks that have incremented and not decremented.
\<close>

inductive reachable :: "BotConfig \<Rightarrow> Bot \<Rightarrow> nat \<Rightarrow> nat \<Rightarrow> bool" for cfg :: BotConfig where
  start: "reachable cfg (newBot cfg) 0 0"
| admitted: "reachable cfg b buyers sellers \<Longrightarrow> tryAcquire cfg b = Some b' \<Longrightarrow>
     reachable cfg b' (Suc buyers) sellers"
| released: "reachable cfg b (Suc buyers) sellers \<Longrightarrow>
     reachable cfg (release b) buyers sellers"
| sell_entered: "reachable cfg b buyers sellers \<Longrightarrow>
     reachable cfg (b\<lparr>sellExecutionCount := sellExecutionCount b + 1\<rparr>) buyers (Suc sellers)"
| sell_left: "reachable cfg b buyers (Suc sellers) \<Longrightarrow>
     reachable cfg (b\<lparr>sellExecutionCount := sellExecutionCount b - 1\<rparr>) buyers sellers"
| other: "reachable cfg b buyers sellers \<Longrightarrow> permits b' = permits b \<Longrightarrow>
     sellExecutionCount b' = sellExecutionCount b \<Longrightarrow> reachable cfg b' buyers sellers"

code_pred reachable .

section \<open>Notions for stating the properties of the loops\<close>

text \<open>
  The local \<^verbatim>\<open>stopLoss\<close> after the trailing step of a round that fetched \<open>amountOut\<close>, and
  after a round whatever its quote step yielded (a round whose quote step threw leaves
  it alone).
\<close>

definition raisedStop :: "BotConfig \<Rightarrow> amount \<Rightarrow> amount \<Rightarrow> amount" where
  "raisedStop cfg stop amountOut =
     (if trailingStopLoss cfg \<and> amountOut - bn_div (amountOut * stopLoss cfg) 100 > stop
      then amountOut - bn_div (amountOut * stopLoss cfg) 100 else stop)"

definition roundStop :: "BotConfig \<Rightarrow> amount \<Rightarrow> amount option \<Rightarrow> amount" where
  "roundStop cfg stop q = (case q of None \<Rightarrow> stop | Some a \<Rightarrow> raisedStop cfg stop a)"

text \<open>
  The local \<^verbatim>\<open>stopLoss\<close> on entry to round \<open>k\<close>, starting from \<open>s0\<close> in round 0, as long as
  the rounds before \<open>k\<close> have not left the loop.
\<close>

primrec stopLossBefore :: "BotConfig \<Rightarrow> quotes \<Rightarrow> amount \<Rightarrow> nat \<Rightarrow> amount" where
  "stopLossBefore cfg qs s0 0 = s0"
| "stopLossBefore cfg qs s0 (Suc k) = roundStop cfg (stopLossBefore cfg qs s0 k) (qs k)"

text \<open>
  Round \<open>k\<close> is within the budget: round 0 always runs (the loop tests after the body),
  a later round only while the counter is below \<^verbatim>\<open>timesToCheck\<close>.
\<close>

definition roundRuns :: "rat \<Rightarrow> nat \<Rightarrow> bool" where
  "roundRuns timesToCheck k = (k = 0 \<or> of_nat k < timesToCheck)"

text \<open>
  A round does not leave the loop: its quote step threw, or the fetched amount is
  neither under the max-loss cutoff, nor under the stop-loss in force after the trailing
  step, nor over the take-profit threshold.
\<close>

definition noSignal :: "BotConfig \<Rightarrow> amount \<Rightarrow> amount \<Rightarrow> amount option \<Rightarrow> bool" where
  "noSignal cfg tp stop q =
     (case q of
        None \<Rightarrow> True
      | Some a \<Rightarrow> \<not> lostTooMuch cfg a \<and> \<not> a < roundStop cfg stop q \<and> \<not> a > tp)"

text \<open>
  The consecutive-match counter on entry to round \<open>k\<close> of the qualification loop, and a
  round that neither throws nor reaches the configured count.
\<close>

primrec matchCountBefore :: "(nat \<Rightarrow> filter_result) \<Rightarrow> nat \<Rightarrow> int" where
  "matchCountBefore fs 0 = 0"
| "matchCountBefore fs (Suc k) =
     (case fs k of
        Match \<Rightarrow> matchCountBefore fs k + 1
      | NoMatch \<Rightarrow> 0
      | Throws \<Rightarrow> matchCountBefore fs k)"

definition belowThreshold :: "BotConfig \<Rightarrow> int \<Rightarrow> filter_result \<Rightarrow> bool" where
  "belowThreshold cfg matchCount r =
     (case r of
        Match \<Rightarrow> matchCount + 1 < consecutiveMatchCount cfg
      | NoMatch \<Rightarrow> True
      | Throws \<Rightarrow> False)"

text \<open>A configuration for the concrete instances below.\<close>

definition exampleConfig :: BotConfig where
  "exampleConfig =
     \<lparr>quoteAmount = 100000000, maxTokensAtTheTime = 2, useSnipeList = False,
      maxBuyRetries = 3, maxSellRetries = 3, takeProfit = 10, stopLoss = 10,
      trailingStopLoss = True, skipSellingIfLostMoreThan = 50,
      priceCheckInterval = 2000, priceCheckDuration = 6000,
      filterCheckInterval = 2000, filterCheckDuration = 6000,
      consecutiveMatchCount = 2\<rparr>"

text \<open>
  Answers of the filter predicate that differ in round 0 only, an environment of a buy
  whose attempts all fail, an environment of a sell whose pool keys do not resolve, and
  an open position.
\<close>

definition throwsFirst :: "nat \<Rightarrow> filter_result" where
  "throwsFirst k = (if k = 0 then Throws else Match)"

definition falseFirst :: "nat \<Rightarrow> filter_result" where
  "falseFirst k = (if k = 0 then NoMatch else Match)"

definition exampleBuyEnv :: buy_env where
  "exampleBuyEnv =
     \<lparr>inSnipeList = False, resolved = True, filterResults = (\<lambda>k. Match),
      buySwaps = (\<lambda>i. if i = 1 then SwapThrew else Unconfirmed)\<rparr>"

definition failingSellEnv :: sell_env where
  "failingSellEnv =
     \<lparr>poolFound = True, heldAmount = 5000, keysResolved = False,
      sellQuotes = (\<lambda>i k. None), sellSwaps = (\<lambda>i. Unconfirmed),
      newBalance = Some 4, journalWriteOk = True\<rparr>"

definition openTrade :: Trade where
  "openTrade =
     \<lparr>tradeMint = ''MINT'', state = Opened, entryAmount = 1, entryFee = 1 / 100,
      exitAmount = 0, exitFee = 0, reason = [], profit = 0\<rparr>"

text \<open>Quotes that stay at the entry amount in round 0 and fall to 49 afterwards.\<close>

definition dropsSecond :: quotes where
  "dropsSecond k = (if k = 0 then Some 100 else Some 49)"

section \<open>Lemmas\<close>

lemma bn_div_nonneg: "0 \<le> a \<Longrightarrow> 0 < b \<Longrightarrow> bn_div a b = a div b"
  by (cases "a = 0") (simp_all add: bn_div_def)

lemma bn_div_floor:
  assumes "0 \<le> a"
  shows "bn_div a 100 = \<lfloor>rat_of_int a / 100\<rfloor>"
proof -
  have "\<lfloor>rat_of_int a / rat_of_int 100\<rfloor> = a div 100"
    by (rule floor_divide_of_int_eq)
  then show ?thesis
    using assms by (simp add: bn_div_nonneg)
qed

lemma trailing_fst: "fst (trailing cfg key stop m a) = raisedStop cfg stop a"
  by (simp add: trailing_def raisedStop_def Let_def)

lemma trailing_snd:
  "m key = Some stop \<Longrightarrow> snd (trailing cfg key stop m a) = m(key \<mapsto> raisedStop cfg stop a)"
  by (auto simp add: trailing_def raisedStop_def Let_def)

lemma trailing_snd_cleared: "(snd (trailing cfg key stop m a))(key := None) = m(key := None)"
  by (simp add: trailing_def Let_def)

lemma trailing_snd_other: "key' \<noteq> key \<Longrightarrow> snd (trailing cfg key stop m a) key' = m key'"
  by (simp add: trailing_def Let_def)

lemma raisedStop_ge: "stop \<le> raisedStop cfg stop a"
  by (simp add: raisedStop_def)

lemma roundStop_ge: "stop \<le> roundStop cfg stop q"
  by (cases q) (simp_all add: roundStop_def raisedStop_ge)

lemma check_round_cases:
  "check_round cfg key tp stop m a =
     (if lostTooMuch cfg a then ReturnFalse (m(key := None))
      else if a < raisedStop cfg stop a \<or> a > tp then Break (m(key := None))
      else NextRound (raisedStop cfg stop a) (snd (trailing cfg key stop m a)))"
  using trailing_fst [of cfg key stop m a] trailing_snd_cleared [of cfg key stop m a]
  by (cases "trailing cfg key stop m a") (simp add: check_round_def)

lemma roundRuns_Suc: "roundRuns ttc (Suc k) = (of_nat (Suc k) < ttc)"
  by (simp add: roundRuns_def)

lemma roundRuns_0: "roundRuns ttc 0"
  by (simp add: roundRuns_def)

lemma roundRuns_down: "roundRuns ttc (Suc k) \<Longrightarrow> roundRuns ttc k"
  by (cases k) (simp_all add: roundRuns_def)

text \<open>The budget is the ceiling of \<^verbatim>\<open>timesToCheck\<close> rounds, and one round at least.\<close>

lemma roundRuns_ceiling: "roundRuns ttc k \<longleftrightarrow> k = 0 \<or> int k < \<lceil>ttc\<rceil>"
proof -
  have "rat_of_nat k < ttc \<longleftrightarrow> rat_of_int (int k) < ttc"
    by simp
  also have "\<dots> \<longleftrightarrow> int k < \<lceil>ttc\<rceil>"
    by (simp only: less_ceiling_iff)
  finally show ?thesis
    by (simp add: roundRuns_def)
qed

lemma stopLossBefore_mono: "j \<le> k \<Longrightarrow> stopLossBefore cfg qs s0 j \<le> stopLossBefore cfg qs s0 k"
proof (induction k)
  case 0
  then show ?case by simp
next
  case (Suc k)
  show ?case
  proof (cases "j = Suc k")
    case True
    then show ?thesis by simp
  next
    case False
    then have "stopLossBefore cfg qs s0 j \<le> stopLossBefore cfg qs s0 k"
      using Suc by simp
    also have "\<dots> \<le> stopLossBefore cfg qs s0 (Suc k)"
      by (simp add: roundStop_ge)
    finally show ?thesis .
  qed
qed

text \<open>A round that obtains no quote, or one that falls through, leads to the loop test.\<close>

lemma exitLoop_quiet_round:
  assumes "noSignal cfg tp stop (qs k)" and "m key = Some stop"
  shows "exitLoop cfg qs key ttc tp k stop m =
     (if of_nat (Suc k) < ttc
      then exitLoop cfg qs key ttc tp (Suc k) (roundStop cfg stop (qs k))
             (m(key \<mapsto> roundStop cfg stop (qs k)))
      else (True, m(key \<mapsto> roundStop cfg stop (qs k))))"
proof (cases "qs k")
  case None
  have "m(key \<mapsto> stop) = m"
    using assms(2) by (rule map_upd_triv)
  then show ?thesis
    using None by (subst exitLoop.simps) (simp add: roundStop_def)
next
  case (Some a)
  have "check_round cfg key tp stop m a =
      NextRound (raisedStop cfg stop a) (snd (trailing cfg key stop m a))"
    using assms(1) Some by (simp add: check_round_cases noSignal_def roundStop_def)
  moreover have "snd (trailing cfg key stop m a) = m(key \<mapsto> raisedStop cfg stop a)"
    using assms(2) by (rule trailing_snd)
  ultimately show ?thesis
    using Some by (subst exitLoop.simps) (simp add: roundStop_def)
qed

text \<open>
  While the rounds before round \<open>k\<close> fall through, the loop enters round \<open>k\<close> with the
  local stop-loss and the stored watermark both equal to \<open>stopLossBefore\<close> at \<open>k\<close>.
\<close>

lemma exitLoop_reaches:
  assumes "m key = Some s0"
    and "\<forall>j<k. noSignal cfg tp (stopLossBefore cfg qs s0 j) (qs j)"
    and "roundRuns ttc k"
  shows "exitLoop cfg qs key ttc tp 0 s0 m =
     exitLoop cfg qs key ttc tp k (stopLossBefore cfg qs s0 k)
       (m(key \<mapsto> stopLossBefore cfg qs s0 k))"
  using assms(2,3)
proof (induction k)
  case 0
  have "m(key \<mapsto> s0) = m"
    using assms(1) by (rule map_upd_triv)
  then show ?case by simp
next
  case (Suc k)
  let ?s = "stopLossBefore cfg qs s0 k"
  have before: "\<forall>j<k. noSignal cfg tp (stopLossBefore cfg qs s0 j) (qs j)"
    using Suc.prems(1) by simp
  have runs: "roundRuns ttc k"
    using Suc.prems(2) by (rule roundRuns_down)
  have quiet: "noSignal cfg tp ?s (qs k)"
    using Suc.prems(1) by simp
  have more: "of_nat (Suc k) < ttc"
    using Suc.prems(2) by (simp only: roundRuns_Suc)
  have stored: "(m(key \<mapsto> ?s)) key = Some ?s"
    by simp
  have "exitLoop cfg qs key ttc tp 0 s0 m = exitLoop cfg qs key ttc tp k ?s (m(key \<mapsto> ?s))"
    using Suc.IH [OF before runs] .
  also have "\<dots> = exitLoop cfg qs key ttc tp (Suc k) (roundStop cfg ?s (qs k))
      ((m(key \<mapsto> ?s))(key \<mapsto> roundStop cfg ?s (qs k)))"
    using exitLoop_quiet_round [where qs = qs and k = k and m = "m(key \<mapsto> ?s)" and key = key,
        OF quiet stored, of ttc] more by simp
  also have "(m(key \<mapsto> ?s))(key \<mapsto> roundStop cfg ?s (qs k)) = m(key \<mapsto> roundStop cfg ?s (qs k))"
    by simp
  finally show ?case
    by simp
qed

text \<open>When no round of the budget signals, the loop ends by expiry.\<close>

lemma exitLoop_expires:
  assumes "\<forall>j\<ge>k. roundRuns ttc j \<longrightarrow> noSignal cfg tp (stopLossBefore cfg qs s0 j) (qs j)"
    and "roundRuns ttc k"
    and "stop = stopLossBefore cfg qs s0 k"
    and "m key = Some stop"
  shows "\<exists>s\<ge>stop. exitLoop cfg qs key ttc tp k stop m = (True, m(key \<mapsto> s))"
  using assms
proof (induction cfg qs key ttc tp k stop m rule: exitLoop.induct)
  case (1 cfg qs key ttc tp k stop m)
  let ?s = "roundStop cfg stop (qs k)"
  have quiet: "noSignal cfg tp stop (qs k)"
    using "1.prems" by simp
  have later: "\<forall>j\<ge>Suc k. roundRuns ttc j \<longrightarrow> noSignal cfg tp (stopLossBefore cfg qs s0 j) (qs j)"
    using "1.prems"(1) by simp
  have ge: "stop \<le> ?s"
    by (rule roundStop_ge)
  have step: "exitLoop cfg qs key ttc tp k stop m =
     (if of_nat (Suc k) < ttc
      then exitLoop cfg qs key ttc tp (Suc k) ?s (m(key \<mapsto> ?s))
      else (True, m(key \<mapsto> ?s)))"
    using exitLoop_quiet_round [where qs = qs and k = k and m = m and key = key,
        OF quiet "1.prems"(4)] .
  show ?case
  proof (cases "of_nat (Suc k) < ttc")
    case False
    then have "exitLoop cfg qs key ttc tp k stop m = (True, m(key \<mapsto> ?s))"
      using step by simp
    then show ?thesis
      using ge by blast
  next
    case True
    have runs: "roundRuns ttc (Suc k)"
      using True by (simp only: roundRuns_Suc)
    have next_stop: "?s = stopLossBefore cfg qs s0 (Suc k)"
      using "1.prems"(3) by simp
    have stored: "(m(key \<mapsto> ?s)) key = Some ?s"
      by simp
    have "\<exists>s\<ge>?s. exitLoop cfg qs key ttc tp (Suc k) ?s (m(key \<mapsto> ?s)) =
        (True, (m(key \<mapsto> ?s))(key \<mapsto> s))"
    proof (cases "qs k")
      case None
      have same: "?s = stop" "m(key \<mapsto> stop) = m"
        using None "1.prems"(4) by (simp_all add: roundStop_def map_upd_triv)
      have next_stop': "stop = stopLossBefore cfg qs s0 (Suc k)"
        using next_stop same(1) by simp
      have "\<exists>s\<ge>stop. exitLoop cfg qs key ttc tp (Suc k) stop m = (True, m(key \<mapsto> s))"
        using "1.IH"(1) [OF None True later runs next_stop' "1.prems"(4)] .
      then show ?thesis
        by (simp add: same)
    next
      case (Some a)
      have rs: "?s = raisedStop cfg stop a"
        using Some by (simp add: roundStop_def)
      have m': "snd (trailing cfg key stop m a) = m(key \<mapsto> ?s)"
        using trailing_snd [where m = m and key = key, OF "1.prems"(4), of cfg a] rs by simp
      have cr: "check_round cfg key tp stop m a =
          NextRound (raisedStop cfg stop a) (snd (trailing cfg key stop m a))"
        using quiet Some by (simp add: check_round_cases noSignal_def roundStop_def)
      have next_stop': "raisedStop cfg stop a = stopLossBefore cfg qs s0 (Suc k)"
        using next_stop rs by simp
      have stored': "snd (trailing cfg key stop m a) key = Some (raisedStop cfg stop a)"
        using m' rs by simp
      have "\<exists>s\<ge>raisedStop cfg stop a.
          exitLoop cfg qs key ttc tp (Suc k) (raisedStop cfg stop a) (snd (trailing cfg key stop m a)) =
          (True, (snd (trailing cfg key stop m a))(key \<mapsto> s))"
        using "1.IH"(2) [OF Some cr True later runs next_stop' stored'] .
      then show ?thesis
        by (simp only: m' rs [symmetric])
    qed
    then obtain s where s: "?s \<le> s"
      and run: "exitLoop cfg qs key ttc tp (Suc k) ?s (m(key \<mapsto> ?s)) =
        (True, (m(key \<mapsto> ?s))(key \<mapsto> s))"
      by blast
    have "(m(key \<mapsto> ?s))(key \<mapsto> s) = m(key \<mapsto> s)"
      by simp
    then have "exitLoop cfg qs key ttc tp k stop m = (True, m(key \<mapsto> s))"
      using step True run by simp
    moreover have "stop \<le> s"
      using ge s by linarith
    ultimately show ?thesis
      by blast
  qed
qed

text \<open>Whatever the quotes, the loop ends with the watermark deleted or not lowered.\<close>

lemma exitLoop_watermark:
  assumes "m key = Some stop"
  shows "snd (exitLoop cfg qs key ttc tp k stop m) key = None \<or>
     (\<exists>s\<ge>stop. snd (exitLoop cfg qs key ttc tp k stop m) key = Some s)"
  using assms
proof (induction cfg qs key ttc tp k stop m rule: exitLoop.induct)
  case (1 cfg qs key ttc tp k stop m)
  show ?case
  proof (cases "qs k")
    case None
    show ?thesis
    proof (cases "of_nat (Suc k) < ttc")
      case True
      show ?thesis
        using "1.IH"(1) [OF None True "1.prems"] None True
        by (subst (1 2) exitLoop.simps) simp
    next
      case False
      then show ?thesis
        using None "1.prems" by (subst (1 2) exitLoop.simps) simp
    qed
  next
    case (Some a)
    let ?s = "raisedStop cfg stop a"
    let ?m = "snd (trailing cfg key stop m a)"
    have m': "?m = m(key \<mapsto> ?s)"
      using "1.prems" by (rule trailing_snd)
    have ge: "stop \<le> ?s"
      by (rule raisedStop_ge)
    show ?thesis
    proof (cases "lostTooMuch cfg a \<or> a < ?s \<or> a > tp")
      case True
      then show ?thesis
        using Some by (subst (1 2) exitLoop.simps) (auto simp add: check_round_cases)
    next
      case False
      then have cr: "check_round cfg key tp stop m a = NextRound ?s ?m"
        by (simp add: check_round_cases)
      show ?thesis
      proof (cases "of_nat (Suc k) < ttc")
        case True
        have mkey: "?m key = Some ?s"
          by (simp add: m')
        have "snd (exitLoop cfg qs key ttc tp (Suc k) ?s ?m) key = None \<or>
            (\<exists>s\<ge>?s. snd (exitLoop cfg qs key ttc tp (Suc k) ?s ?m) key = Some s)"
          using "1.IH"(2) [OF Some cr True mkey] .
        moreover have "exitLoop cfg qs key ttc tp k stop m = exitLoop cfg qs key ttc tp (Suc k) ?s ?m"
          using Some cr True by (subst exitLoop.simps) simp
        ultimately show ?thesis
        proof (elim disjE exE conjE)
          assume "snd (exitLoop cfg qs key ttc tp (Suc k) ?s ?m) key = None"
            and "exitLoop cfg qs key ttc tp k stop m = exitLoop cfg qs key ttc tp (Suc k) ?s ?m"
          then show ?thesis by simp
        next
          fix s
          assume "?s \<le> s"
            and "snd (exitLoop cfg qs key ttc tp (Suc k) ?s ?m) key = Some s"
            and "exitLoop cfg qs key ttc tp k stop m = exitLoop cfg qs key ttc tp (Suc k) ?s ?m"
          moreover from \<open>?s \<le> s\<close> have "stop \<le> s"
            using ge by linarith
          ultimately show ?thesis by simp
        qed
      next
        case False
        have "exitLoop cfg qs key ttc tp k stop m = (True, ?m)"
          using Some cr False by (subst exitLoop.simps) simp
        then show ?thesis
          using ge m' by simp
      qed
    qed
  qed
qed



lemma bn_div_percent: "0 \<le> x \<Longrightarrow> bn_div (x * 100) 100 = x"
  by (simp add: bn_div_nonneg)

lemma exitLoop_break:
  assumes "qs k = Some a" and "check_round cfg key tp stop m a = Break m'"
  shows "exitLoop cfg qs key ttc tp k stop m = (True, m')"
  using assms by (subst exitLoop.simps) simp

lemma exitLoop_abort:
  assumes "qs k = Some a" and "lostTooMuch cfg a"
  shows "exitLoop cfg qs key ttc tp k stop m = (False, m(key := None))"
  using assms by (subst exitLoop.simps) (simp add: check_round_cases)

lemma waitForSellSignal_unfold:
  assumes "priceCheckInterval cfg \<noteq> 0" and "priceCheckDuration cfg \<noteq> 0"
  shows "waitForSellSignal cfg qs key m =
     exitLoop cfg qs key (of_int (priceCheckDuration cfg) / of_int (priceCheckInterval cfg))
       (takeProfitAmount cfg) 0
       (case m key of None \<Rightarrow> initialStopLoss cfg | Some s \<Rightarrow> s)
       (m(key \<mapsto> (case m key of None \<Rightarrow> initialStopLoss cfg | Some s \<Rightarrow> s)))"
proof (cases "m key")
  case None
  then show ?thesis
    using assms by (simp add: waitForSellSignal_def Let_def)
next
  case (Some s)
  then have "m(key \<mapsto> s) = m"
    by (simp add: map_upd_triv)
  then show ?thesis
    using assms Some by (simp add: waitForSellSignal_def Let_def)
qed

lemma waitForSellSignal_start:
  assumes "priceCheckInterval cfg \<noteq> 0" and "priceCheckDuration cfg \<noteq> 0"
    and "s0 = (case m key of None \<Rightarrow> initialStopLoss cfg | Some s \<Rightarrow> s)"
  shows "waitForSellSignal cfg qs key m =
     exitLoop cfg qs key (of_int (priceCheckDuration cfg) / of_int (priceCheckInterval cfg))
       (takeProfitAmount cfg) 0 s0 (m(key \<mapsto> s0))"
  using waitForSellSignal_unfold [OF assms(1,2), of qs key m] assms(3) by simp

text \<open>When no round of the budget throws or reaches the count, the loop runs out.\<close>

lemma filterLoop_exhausts:
  assumes "\<forall>j\<ge>k. roundRuns ttc j \<longrightarrow> belowThreshold cfg (matchCountBefore fs j) (fs j)"
    and "roundRuns ttc k"
    and "mc = matchCountBefore fs k"
  shows "filterLoop cfg fs ttc k mc = Inr False"
  using assms
proof (induction cfg fs ttc k mc rule: filterLoop.induct)
  case (1 cfg fs ttc k mc)
  have now: "belowThreshold cfg mc (fs k)"
    using "1.prems" by simp
  have later: "\<forall>j\<ge>Suc k. roundRuns ttc j \<longrightarrow> belowThreshold cfg (matchCountBefore fs j) (fs j)"
    using "1.prems"(1) by simp
  show ?case
  proof (cases "fs k")
    case Throws
    then show ?thesis
      using now by (simp add: belowThreshold_def)
  next
    case Match
    have below: "\<not> consecutiveMatchCount cfg \<le> mc + 1"
      using now Match by (simp add: belowThreshold_def)
    show ?thesis
    proof (cases "of_nat (Suc k) < ttc")
      case True
      have runs: "roundRuns ttc (Suc k)"
        using True by (simp only: roundRuns_Suc)
      have count: "mc + 1 = matchCountBefore fs (Suc k)"
        using "1.prems"(3) Match by simp
      have "filterLoop cfg fs ttc (Suc k) (mc + 1) = Inr False"
        using "1.IH"(1) [OF Match below True later runs count] .
      then show ?thesis
        using Match below True by (subst filterLoop.simps) simp
    next
      case False
      then show ?thesis
        using Match below by (subst filterLoop.simps) simp
    qed
  next
    case NoMatch
    show ?thesis
    proof (cases "of_nat (Suc k) < ttc")
      case True
      have runs: "roundRuns ttc (Suc k)"
        using True by (simp only: roundRuns_Suc)
      have count: "0 = matchCountBefore fs (Suc k)"
        using NoMatch by simp
      have "filterLoop cfg fs ttc (Suc k) 0 = Inr False"
        using "1.IH"(2) [OF NoMatch True later runs count] .
      then show ?thesis
        using NoMatch True by (subst filterLoop.simps) simp
    next
      case False
      then show ?thesis
        using NoMatch by (subst filterLoop.simps) simp
    qed
  qed
qed

lemma waitForSellSignal_expires:
  assumes "priceCheckInterval cfg \<noteq> 0" and "priceCheckDuration cfg \<noteq> 0"
    and "s0 = (case m key of None \<Rightarrow> initialStopLoss cfg | Some s \<Rightarrow> s)"
    and "\<forall>j. roundRuns (of_int (priceCheckDuration cfg) / of_int (priceCheckInterval cfg)) j \<longrightarrow>
           noSignal cfg (takeProfitAmount cfg) (stopLossBefore cfg qs s0 j) (qs j)"
  shows "\<exists>s\<ge>s0. waitForSellSignal cfg qs key m = (True, m(key \<mapsto> s))"
proof -
  let ?ttc = "of_int (priceCheckDuration cfg) / of_int (priceCheckInterval cfg) :: rat"
  let ?m = "m(key \<mapsto> s0)"
  have start: "waitForSellSignal cfg qs key m =
      exitLoop cfg qs key ?ttc (takeProfitAmount cfg) 0 s0 ?m"
    using assms(1,2,3) by (rule waitForSellSignal_start)
  have quiet: "\<forall>j\<ge>0. roundRuns ?ttc j \<longrightarrow>
      noSignal cfg (takeProfitAmount cfg) (stopLossBefore cfg qs s0 j) (qs j)"
    using assms(4) by simp
  have first: "s0 = stopLossBefore cfg qs s0 0"
    by simp
  have stored: "?m key = Some s0"
    by simp
  have "\<exists>s\<ge>s0. exitLoop cfg qs key ?ttc (takeProfitAmount cfg) 0 s0 ?m = (True, ?m(key \<mapsto> s))"
    using exitLoop_expires [where m = ?m and key = key and k = 0 and qs = qs,
        OF quiet roundRuns_0 first stored] .
  then obtain s where "s0 \<le> s"
    and "exitLoop cfg qs key ?ttc (takeProfitAmount cfg) 0 s0 ?m = (True, ?m(key \<mapsto> s))"
    by blast
  moreover have "?m(key \<mapsto> s) = m(key \<mapsto> s)"
    by simp
  ultimately have "s0 \<le> s \<and> waitForSellSignal cfg qs key m = (True, m(key \<mapsto> s))"
    using start by simp
  then show ?thesis
    by blast
qed

lemma stopLossBefore_flat:
  "stopLossBefore exampleConfig (\<lambda>k. Some 100000000) 90000000 j = 90000000"
  by (induction j) (simp_all add: roundStop_def raisedStop_def exampleConfig_def bn_div_def)

lemma exampleConfig_flat_quiet:
  "noSignal exampleConfig (takeProfitAmount exampleConfig)
     (stopLossBefore exampleConfig (\<lambda>k. Some 100000000) 90000000 j) (Some 100000000)"
  unfolding stopLossBefore_flat
  by (simp add: noSignal_def roundStop_def raisedStop_def lostTooMuch_def stopSellingAmount_def
      takeProfitAmount_def exampleConfig_def bn_div_def)

lemma exampleConfig_one_match:
  "belowThreshold exampleConfig (matchCountBefore (\<lambda>k. if k = 1 then Match else NoMatch) j)
     (if j = 1 then Match else NoMatch)"
proof (cases "j = 1")
  case True
  then have "j = Suc 0" by simp
  then show ?thesis
    by (simp add: belowThreshold_def exampleConfig_def)
next
  case False
  then show ?thesis
    by (simp add: belowThreshold_def)
qed

lemma filterLoop_throws:
  "fs k = Throws \<Longrightarrow> filterLoop cfg fs ttc k mc = Inl PredicateError"
  by (subst filterLoop.simps) simp

lemma falseFirst_qualifies: "filterMatch exampleConfig falseFirst = Inr True"
proof -
  have "filterLoop exampleConfig falseFirst 3 (Suc (Suc 0)) 1 = Inr True"
    by (subst filterLoop.simps) (simp add: falseFirst_def exampleConfig_def)
  then have "filterLoop exampleConfig falseFirst 3 (Suc 0) 0 = Inr True"
    by (subst filterLoop.simps) (simp add: falseFirst_def exampleConfig_def)
  then have "filterLoop exampleConfig falseFirst 3 0 0 = Inr True"
    by (subst filterLoop.simps) (simp add: falseFirst_def)
  then show ?thesis
    by (simp add: filterMatch_def exampleConfig_def)
qed

lemma newBot_admits: "tryAcquire exampleConfig (newBot exampleConfig) =
    Some ((newBot exampleConfig)\<lparr>permits := 1\<rparr>)"
  by (simp add: tryAcquire_def isLocked_def numberOfActionsBeingProcessed_def newBot_def
      exampleConfig_def)

text \<open>The parts of the buy pipeline's failure handling that hold on every path.\<close>

lemma buy_writes_no_journal: "journal (buy cfg env key b) = journal b"
  by (simp add: buy_def buyTry_def tryAcquire_def release_def Let_def
      split: option.splits try_result.splits sum.splits bool.splits)

lemma buy_thrown_discards:
  assumes "tryAcquire cfg b = Some b1" and "buyTry cfg env key b1 = Thrown b2"
    and "\<not> (useSnipeList cfg \<and> \<not> inSnipeList env)"
  shows "trades (buy cfg env key b) key = None"
  using assms by (auto simp add: buy_def release_def)

lemma buyTry_ignores_swaps: "buyTry cfg (env\<lparr>buySwaps := swaps\<rparr>) key b = buyTry cfg env key b"
  by (simp add: buyTry_def Let_def split: sum.splits bool.splits)

lemma buy_ignores_swaps: "buy cfg (env\<lparr>buySwaps := swaps\<rparr>) key b = buy cfg env key b"
  by (simp add: buy_def buyTry_ignores_swaps split: option.splits)

lemma sellTry_Thrown: "sellTry cfg env key b = Thrown b1 \<Longrightarrow> b1 = b"
  by (simp add: sellTry_def Let_def split: if_splits)

lemma reachable_counts:
  assumes "reachable cfg b buyers sellers"
  shows "permits b = int (maxTokensAtTheTime cfg) - int buyers
     \<and> sellExecutionCount b = int sellers
     \<and> buyers \<le> maxTokensAtTheTime cfg"
  using assms
proof (induction rule: reachable.induct)
  case start
  show ?case by (simp add: newBot_def)
next
  case (admitted b buyers sellers b')
  then have "0 < permits b" and "b' = b\<lparr>permits := permits b - 1\<rparr>"
    by (auto simp add: tryAcquire_def isLocked_def split: if_splits)
  then show ?case
    using admitted.IH by auto
next
  case (released b buyers sellers)
  then show ?case by (simp add: release_def)
next
  case (sell_entered b buyers sellers)
  then show ?case by simp
next
  case (sell_left b buyers sellers)
  then show ?case by simp
next
  case (other b buyers sellers b')
  then show ?case by simp
qed

lemma tryAcquire_rejects:
  "isLocked b \<or> numberOfActionsBeingProcessed cfg b \<ge> int (maxTokensAtTheTime cfg) \<Longrightarrow>
   tryAcquire cfg b = None"
  by (simp add: tryAcquire_def)

lemma buy_rejected: "tryAcquire cfg b = None \<Longrightarrow> buy cfg env key b = b"
  by (simp add: buy_def)

lemma exampleConfig_full:
  "reachable exampleConfig ((newBot exampleConfig)\<lparr>permits := 0\<rparr>) (Suc (Suc 0)) 0"
proof -
  have one: "reachable exampleConfig ((newBot exampleConfig)\<lparr>permits := 1\<rparr>) (Suc 0) 0"
    using reachable.start [of exampleConfig] newBot_admits by (rule reachable.admitted)
  have "tryAcquire exampleConfig ((newBot exampleConfig)\<lparr>permits := 1\<rparr>) =
      Some ((newBot exampleConfig)\<lparr>permits := 0\<rparr>)"
    by (simp add: tryAcquire_def isLocked_def numberOfActionsBeingProcessed_def newBot_def
        exampleConfig_def)
  with one show ?thesis
    by (rule reachable.admitted)
qed

lemma exampleConfig_rising_quiet:
  "noSignal exampleConfig 110000000 90000000 (Some 105000000)"
  by (simp add: noSignal_def roundStop_def raisedStop_def lostTooMuch_def stopSellingAmount_def
      exampleConfig_def bn_div_def)

lemma exampleConfig_take_profit:
  "waitForSellSignal exampleConfig (\<lambda>k. Some 110000001) ''MINT'' Map.empty = (True, Map.empty)"
proof -
  have "check_round exampleConfig ''MINT'' 110000000 90000000 [''MINT'' \<mapsto> 90000000] 110000001 =
      Break Map.empty"
    by (simp add: check_round_cases lostTooMuch_def stopSellingAmount_def raisedStop_def
        exampleConfig_def bn_div_def)
  then have "exitLoop exampleConfig (\<lambda>k. Some 110000001) ''MINT'' 3 110000000 0 90000000
      [''MINT'' \<mapsto> 90000000] = (True, Map.empty)"
    by (intro exitLoop_break [where a = 110000001]) simp_all
  then show ?thesis
    by (simp add: waitForSellSignal_def takeProfitAmount_def initialStopLoss_def Let_def
        exampleConfig_def bn_div_def)
qed

section \<open>Thresholds of the exit-signal check\<close>

text \<open>
  Claim C1. A call with nonzero price-check interval and duration runs the monitoring
  loop with the take-profit threshold \<open>quoteAmount + quoteAmount * takeProfit / 100\<close>,
  where \<open>quoteAmount\<close> is the amount every position is entered with and the division is
  the SDK's integer division on raw units (the floor of the exact quotient when the
  product is not negative). When the mint has no watermark, the loop starts with the
  stop-loss \<open>quoteAmount - quoteAmount * stopLoss / 100\<close> and stores it under the mint;
  when it has one, the loop starts with the stored value and the map is left as it is.
\<close>

theorem exit_thresholds:
  assumes "priceCheckInterval cfg \<noteq> 0" and "priceCheckDuration cfg \<noteq> 0"
  shows "(m key = None \<longrightarrow>
            waitForSellSignal cfg qs key m =
              exitLoop cfg qs key
                (of_int (priceCheckDuration cfg) / of_int (priceCheckInterval cfg))
                (quoteAmount cfg + bn_div (quoteAmount cfg * takeProfit cfg) 100) 0
                (quoteAmount cfg - bn_div (quoteAmount cfg * stopLoss cfg) 100)
                (m(key \<mapsto> quoteAmount cfg - bn_div (quoteAmount cfg * stopLoss cfg) 100)))
       \<and> (\<forall>s. m key = Some s \<longrightarrow>
            waitForSellSignal cfg qs key m =
              exitLoop cfg qs key
                (of_int (priceCheckDuration cfg) / of_int (priceCheckInterval cfg))
                (quoteAmount cfg + bn_div (quoteAmount cfg * takeProfit cfg) 100) 0 s m)
       \<and> (0 \<le> quoteAmount cfg * takeProfit cfg \<longrightarrow>
            bn_div (quoteAmount cfg * takeProfit cfg) 100 =
              \<lfloor>rat_of_int (quoteAmount cfg) * rat_of_int (takeProfit cfg) / 100\<rfloor>)
       \<and> (0 \<le> quoteAmount cfg * stopLoss cfg \<longrightarrow>
            bn_div (quoteAmount cfg * stopLoss cfg) 100 =
              \<lfloor>rat_of_int (quoteAmount cfg) * rat_of_int (stopLoss cfg) / 100\<rfloor>)"
proof (intro conjI impI allI)
  assume "m key = None"
  then show "waitForSellSignal cfg qs key m =
      exitLoop cfg qs key (of_int (priceCheckDuration cfg) / of_int (priceCheckInterval cfg))
        (quoteAmount cfg + bn_div (quoteAmount cfg * takeProfit cfg) 100) 0
        (quoteAmount cfg - bn_div (quoteAmount cfg * stopLoss cfg) 100)
        (m(key \<mapsto> quoteAmount cfg - bn_div (quoteAmount cfg * stopLoss cfg) 100))"
    using assms
    by (simp add: waitForSellSignal_def takeProfitAmount_def initialStopLoss_def Let_def)
next
  fix s
  assume "m key = Some s"
  then show "waitForSellSignal cfg qs key m =
      exitLoop cfg qs key (of_int (priceCheckDuration cfg) / of_int (priceCheckInterval cfg))
        (quoteAmount cfg + bn_div (quoteAmount cfg * takeProfit cfg) 100) 0 s m"
    using assms by (simp add: waitForSellSignal_def takeProfitAmount_def Let_def)
next
  assume "0 \<le> quoteAmount cfg * takeProfit cfg"
  then show "bn_div (quoteAmount cfg * takeProfit cfg) 100 =
      \<lfloor>rat_of_int (quoteAmount cfg) * rat_of_int (takeProfit cfg) / 100\<rfloor>"
    using bn_div_floor [of "quoteAmount cfg * takeProfit cfg"] by simp
next
  assume "0 \<le> quoteAmount cfg * stopLoss cfg"
  then show "bn_div (quoteAmount cfg * stopLoss cfg) 100 =
      \<lfloor>rat_of_int (quoteAmount cfg) * rat_of_int (stopLoss cfg) / 100\<rfloor>"
    using bn_div_floor [of "quoteAmount cfg * stopLoss cfg"] by simp
qed

theorem exit_thresholds_witness:
  "waitForSellSignal exampleConfig (\<lambda>k. None) ''MINT'' Map.empty =
     exitLoop exampleConfig (\<lambda>k. None) ''MINT'' 3 110000000 0 90000000 [''MINT'' \<mapsto> 90000000]
   \<and> waitForSellSignal exampleConfig (\<lambda>k. None) ''MINT'' [''MINT'' \<mapsto> 95000000] =
     exitLoop exampleConfig (\<lambda>k. None) ''MINT'' 3 110000000 0 95000000 [''MINT'' \<mapsto> 95000000]
   \<and> bn_div (quoteAmount exampleConfig * takeProfit exampleConfig) 100 = \<lfloor>10000000 :: rat\<rfloor>
   \<and> bn_div (quoteAmount exampleConfig * stopLoss exampleConfig) 100 = \<lfloor>10000000 :: rat\<rfloor>"
  using exit_thresholds [of exampleConfig Map.empty "''MINT''" "\<lambda>k. None"]
    exit_thresholds [of exampleConfig "[''MINT'' \<mapsto> 95000000]" "''MINT''" "\<lambda>k. None"]
  by (simp add: exampleConfig_def bn_div_def)

section \<open>Admission of buys\<close>

text \<open>
  Claim C2. A buy attempt that finds the permit pool exhausted, or for which
  \<open>N - availablePermits + sellExecutionCount \<ge> N\<close> (\<open>N\<close> the configured maximum), returns
  without acquiring a permit: the bot is left as it was. In every state that interleaved
  buys and sells reach, at most \<open>N\<close> buys hold a permit, the pool holds \<open>N\<close> minus their
  number, and an attempt is rejected exactly when the buys holding a permit and the sells
  in flight together reach \<open>N\<close>. So with \<open>N\<close> buys admitted the next attempt is
  rejected; once one of them has released its permit, and no sell is in flight, the next
  attempt takes it.
\<close>

theorem admission_control:
  "(isLocked b \<or> numberOfActionsBeingProcessed cfg b \<ge> int (maxTokensAtTheTime cfg) \<longrightarrow>
      tryAcquire cfg b = None \<and> buy cfg env key b = b)
   \<and> (reachable cfg b buyers sellers \<longrightarrow>
      buyers \<le> maxTokensAtTheTime cfg \<and>
      permits b = int (maxTokensAtTheTime cfg) - int buyers \<and>
      sellExecutionCount b = int sellers \<and>
      (tryAcquire cfg b = None \<longleftrightarrow> maxTokensAtTheTime cfg \<le> buyers + sellers))
   \<and> (reachable cfg b buyers sellers \<and> buyers = maxTokensAtTheTime cfg \<longrightarrow>
      tryAcquire cfg b = None \<and> buy cfg env key b = b)
   \<and> (reachable cfg b (Suc buyers) sellers \<and> Suc buyers = maxTokensAtTheTime cfg \<and> sellers = 0 \<longrightarrow>
      tryAcquire cfg (release b) = Some ((release b)\<lparr>permits := permits (release b) - 1\<rparr>))"
proof (intro conjI impI)
  assume "isLocked b \<or> numberOfActionsBeingProcessed cfg b \<ge> int (maxTokensAtTheTime cfg)"
  then show "tryAcquire cfg b = None"
    by (rule tryAcquire_rejects)
  then show "buy cfg env key b = b"
    by (rule buy_rejected)
next
  assume r: "reachable cfg b buyers sellers"
  note inv = reachable_counts [OF r]
  show "buyers \<le> maxTokensAtTheTime cfg"
    and "permits b = int (maxTokensAtTheTime cfg) - int buyers"
    and "sellExecutionCount b = int sellers"
    using inv by simp_all
  show "tryAcquire cfg b = None \<longleftrightarrow> maxTokensAtTheTime cfg \<le> buyers + sellers"
    using inv by (auto simp add: tryAcquire_def isLocked_def numberOfActionsBeingProcessed_def)
next
  assume h: "reachable cfg b buyers sellers \<and> buyers = maxTokensAtTheTime cfg"
  then have "permits b = 0"
    using reachable_counts [of cfg b buyers sellers] by auto
  then show "tryAcquire cfg b = None"
    by (simp add: tryAcquire_def isLocked_def)
  then show "buy cfg env key b = b"
    by (rule buy_rejected)
next
  assume h: "reachable cfg b (Suc buyers) sellers \<and> Suc buyers = maxTokensAtTheTime cfg \<and> sellers = 0"
  then have "permits b = 0" and "sellExecutionCount b = 0"
    using reachable_counts [of cfg b "Suc buyers" sellers] by auto
  then show "tryAcquire cfg (release b) = Some ((release b)\<lparr>permits := permits (release b) - 1\<rparr>)"
    using h by (simp add: tryAcquire_def isLocked_def numberOfActionsBeingProcessed_def release_def)
qed

theorem admission_control_witness:
  "Suc (Suc 0) \<le> maxTokensAtTheTime exampleConfig
   \<and> permits ((newBot exampleConfig)\<lparr>permits := 0\<rparr>) = int (maxTokensAtTheTime exampleConfig) - 2
   \<and> tryAcquire exampleConfig ((newBot exampleConfig)\<lparr>permits := 0\<rparr>) = None
   \<and> buy exampleConfig exampleBuyEnv ''MINT'' ((newBot exampleConfig)\<lparr>permits := 0\<rparr>) =
       (newBot exampleConfig)\<lparr>permits := 0\<rparr>
   \<and> tryAcquire exampleConfig (release ((newBot exampleConfig)\<lparr>permits := 0\<rparr>)) =
       Some ((newBot exampleConfig)\<lparr>permits := 0\<rparr>)"
proof -
  let ?b = "(newBot exampleConfig)\<lparr>permits := 0\<rparr>"
  have n: "Suc (Suc 0) = maxTokensAtTheTime exampleConfig"
    by (simp add: exampleConfig_def)
  note full = admission_control [where cfg = exampleConfig and b = ?b and buyers = "Suc (Suc 0)"
      and sellers = 0 and env = exampleBuyEnv and key = "''MINT''"]
  note last = admission_control [where cfg = exampleConfig and b = ?b and buyers = "Suc 0"
      and sellers = 0]
  have bound: "Suc (Suc 0) \<le> maxTokensAtTheTime exampleConfig"
    and pool: "permits ?b = int (maxTokensAtTheTime exampleConfig) - int (Suc (Suc 0))"
    using full exampleConfig_full by blast+
  have rejected: "tryAcquire exampleConfig ?b = None"
    and skipped: "buy exampleConfig exampleBuyEnv ''MINT'' ?b = ?b"
    using full exampleConfig_full n by blast+
  have "tryAcquire exampleConfig (release ?b) = Some ((release ?b)\<lparr>permits := permits (release ?b) - 1\<rparr>)"
    using last exampleConfig_full n by blast
  then have again: "tryAcquire exampleConfig (release ?b) = Some ?b"
    by (simp add: release_def)
  show ?thesis
    using bound pool rejected skipped again by simp
qed

section \<open>A buy that opens no position\<close>

text \<open>
  Claim C3. With three attempts configured and every one of them failing (unconfirmed,
  thrown, unconfirmed), the retry loop is left without \<^verbatim>\<open>break\<close>, and when \<^verbatim>\<open>buy\<close> returns
  the Trade created for the mint is still in the active-trades map, in state \<open>Started\<close>,
  with the permit given back; the \<^verbatim>\<open>catch\<close> that deletes the entry is not reached, since
  the loop swallows what its attempts throw. In general the state after \<^verbatim>\<open>buy\<close> does not
  depend on the swap results at all. A later sell of that mint whose pool keys do not
  resolve returns with the left-over trade written to the journal.
\<close>

theorem failed_buy_keeps_trade:
  "buyRetries (buySwaps exampleBuyEnv) 0 (maxBuyRetries exampleConfig) = False
   \<and> trades (buy exampleConfig exampleBuyEnv ''MINT'' (newBot exampleConfig)) ''MINT'' =
       Some (transitionStart (newTrade ''MINT''))
   \<and> state (transitionStart (newTrade ''MINT'')) = Started
   \<and> permits (buy exampleConfig exampleBuyEnv ''MINT'' (newBot exampleConfig)) =
       permits (newBot exampleConfig)
   \<and> buy cfg (env\<lparr>buySwaps := swaps\<rparr>) key b = buy cfg env key b
   \<and> journal (reached (sell exampleConfig failingSellEnv ''MINT''
        (buy exampleConfig exampleBuyEnv ''MINT'' (newBot exampleConfig)))) =
       [\<lparr>entryId = 1, entryBalance = 4,
         entryTrade = close (transitionStart (newTrade ''MINT'')) 0 0 ''sell_failed''\<rparr>]
   \<and> sell exampleConfig failingSellEnv ''MINT''
        (buy exampleConfig exampleBuyEnv ''MINT'' (newBot exampleConfig)) =
       Completed (reached (sell exampleConfig failingSellEnv ''MINT''
        (buy exampleConfig exampleBuyEnv ''MINT'' (newBot exampleConfig))))"
proof (intro conjI)
  have "maxBuyRetries exampleConfig = Suc (Suc (Suc 0))"
    by (simp add: exampleConfig_def)
  then show "buyRetries (buySwaps exampleBuyEnv) 0 (maxBuyRetries exampleConfig) = False"
    by (simp add: exampleBuyEnv_def)
  have match: "filterMatch exampleConfig (\<lambda>k. Match) = Inr True"
  proof -
    have "filterLoop exampleConfig (\<lambda>k. Match) 3 (Suc 0) 1 = Inr True"
      by (subst filterLoop.simps) (simp add: exampleConfig_def)
    then have "filterLoop exampleConfig (\<lambda>k. Match) 3 0 0 = Inr True"
      by (subst filterLoop.simps) (simp add: exampleConfig_def)
    then show ?thesis
      by (simp add: filterMatch_def exampleConfig_def)
  qed
  have list: "useSnipeList exampleConfig = False"
    by (simp add: exampleConfig_def)
  show "trades (buy exampleConfig exampleBuyEnv ''MINT'' (newBot exampleConfig)) ''MINT'' =
      Some (transitionStart (newTrade ''MINT''))"
    using match list newBot_admits
    by (simp add: buy_def buyTry_def exampleBuyEnv_def release_def Let_def)
  show "state (transitionStart (newTrade ''MINT'')) = Started"
    by (simp add: transitionStart_def)
  show "permits (buy exampleConfig exampleBuyEnv ''MINT'' (newBot exampleConfig)) =
      permits (newBot exampleConfig)"
    using match list newBot_admits
    by (simp add: buy_def buyTry_def exampleBuyEnv_def release_def Let_def newBot_def exampleConfig_def)
  show "buy cfg (env\<lparr>buySwaps := swaps\<rparr>) key b = buy cfg env key b"
    by (rule buy_ignores_swaps)
  have after: "buy exampleConfig exampleBuyEnv ''MINT'' (newBot exampleConfig) =
      (newBot exampleConfig)\<lparr>trades := [''MINT'' \<mapsto> transitionStart (newTrade ''MINT'')]\<rparr>"
    using match list newBot_admits
    by (simp add: buy_def buyTry_def exampleBuyEnv_def release_def Let_def newBot_def
        exampleConfig_def)
  show "journal (reached (sell exampleConfig failingSellEnv ''MINT''
      (buy exampleConfig exampleBuyEnv ''MINT'' (newBot exampleConfig)))) =
      [\<lparr>entryId = 1, entryBalance = 4,
        entryTrade = close (transitionStart (newTrade ''MINT'')) 0 0 ''sell_failed''\<rparr>]"
    unfolding after
    by (simp add: sell_def sellTry_def sellCatch_def sellFinally_def completeAndLog_def
        failingSellEnv_def newBot_def Let_def)
  show "sell exampleConfig failingSellEnv ''MINT''
      (buy exampleConfig exampleBuyEnv ''MINT'' (newBot exampleConfig)) =
      Completed (reached (sell exampleConfig failingSellEnv ''MINT''
        (buy exampleConfig exampleBuyEnv ''MINT'' (newBot exampleConfig))))"
    unfolding after
    by (simp add: sell_def sellTry_def sellCatch_def sellFinally_def completeAndLog_def
        failingSellEnv_def newBot_def Let_def)
qed

section \<open>A predicate that throws\<close>

text \<open>
  Claim C4. When the filter predicate throws in a round, the qualification loop ends
  with that exception, whatever the round, the counter and the budget. With a budget of
  three rounds and two consecutive matches required, answers that throw in round 0 and
  match afterwards end in the exception, and \<^verbatim>\<open>buy\<close> then leaves the bot as it was and
  opens no trade; the same answers with a plain false in round 0 qualify, and \<^verbatim>\<open>buy\<close>
  goes on to create the trade.
\<close>

theorem filter_exception_escapes:
  "filterLoop cfg (fs(k := Throws)) ttc k mc = Inl PredicateError
   \<and> filterMatch exampleConfig throwsFirst = Inl PredicateError
   \<and> filterMatch exampleConfig falseFirst = Inr True
   \<and> buy exampleConfig (exampleBuyEnv\<lparr>filterResults := throwsFirst\<rparr>) ''MINT''
        (newBot exampleConfig) = newBot exampleConfig
   \<and> trades (buy exampleConfig (exampleBuyEnv\<lparr>filterResults := falseFirst\<rparr>) ''MINT''
        (newBot exampleConfig)) ''MINT'' = Some (transitionStart (newTrade ''MINT''))"
proof (intro conjI)
  show "filterLoop cfg (fs(k := Throws)) ttc k mc = Inl PredicateError"
    by (rule filterLoop_throws) simp
  have "filterLoop exampleConfig throwsFirst 3 0 0 = Inl PredicateError"
    by (rule filterLoop_throws) (simp add: throwsFirst_def)
  then show escapes: "filterMatch exampleConfig throwsFirst = Inl PredicateError"
    by (simp add: filterMatch_def exampleConfig_def)
  show "filterMatch exampleConfig falseFirst = Inr True"
    by (rule falseFirst_qualifies)
  have "useSnipeList exampleConfig = False"
    by (simp add: exampleConfig_def)
  then show "buy exampleConfig (exampleBuyEnv\<lparr>filterResults := throwsFirst\<rparr>) ''MINT''
      (newBot exampleConfig) = newBot exampleConfig"
    using escapes newBot_admits
    by (simp add: buy_def buyTry_def exampleBuyEnv_def release_def newBot_def exampleConfig_def)
  have "useSnipeList exampleConfig = False"
    by (simp add: exampleConfig_def)
  then show "trades (buy exampleConfig (exampleBuyEnv\<lparr>filterResults := falseFirst\<rparr>) ''MINT''
      (newBot exampleConfig)) ''MINT'' = Some (transitionStart (newTrade ''MINT''))"
    using falseFirst_qualifies newBot_admits
    by (simp add: buy_def buyTry_def exampleBuyEnv_def release_def newBot_def Let_def)
qed

section \<open>The trigger check\<close>



section \<open>Expiry of the two loops\<close>

text \<open>
  Claim C6. When every round of the exit-signal loop's budget either fails to obtain a
  quote or ends without abort and without trigger, the check returns true. When every
  round of the qualification loop's budget returns without the consecutive-match counter
  reaching the required count, the qualification returns false.
\<close>

theorem expiry_defaults:
  "(priceCheckInterval cfg \<noteq> 0 \<and> priceCheckDuration cfg \<noteq> 0 \<and>
      s0 = (case m key of None \<Rightarrow> initialStopLoss cfg | Some s \<Rightarrow> s) \<and>
      (\<forall>j. roundRuns (of_int (priceCheckDuration cfg) / of_int (priceCheckInterval cfg)) j \<longrightarrow>
         noSignal cfg (takeProfitAmount cfg) (stopLossBefore cfg qs s0 j) (qs j)) \<longrightarrow>
      fst (waitForSellSignal cfg qs key m) = True)
   \<and> (filterCheckInterval cfg \<noteq> 0 \<and> filterCheckDuration cfg \<noteq> 0 \<and>
      (\<forall>j. roundRuns (of_int (filterCheckDuration cfg) / of_int (filterCheckInterval cfg)) j \<longrightarrow>
         belowThreshold cfg (matchCountBefore fs j) (fs j)) \<longrightarrow>
      filterMatch cfg fs = Inr False)"
proof (intro conjI impI)
  assume h: "priceCheckInterval cfg \<noteq> 0 \<and> priceCheckDuration cfg \<noteq> 0 \<and>
      s0 = (case m key of None \<Rightarrow> initialStopLoss cfg | Some s \<Rightarrow> s) \<and>
      (\<forall>j. roundRuns (of_int (priceCheckDuration cfg) / of_int (priceCheckInterval cfg)) j \<longrightarrow>
         noSignal cfg (takeProfitAmount cfg) (stopLossBefore cfg qs s0 j) (qs j))"
  have "\<exists>s\<ge>s0. waitForSellSignal cfg qs key m = (True, m(key \<mapsto> s))"
    using h by (intro waitForSellSignal_expires) blast+
  then show "fst (waitForSellSignal cfg qs key m) = True"
    by auto
next
  let ?ttc = "of_int (filterCheckDuration cfg) / of_int (filterCheckInterval cfg) :: rat"
  assume h: "filterCheckInterval cfg \<noteq> 0 \<and> filterCheckDuration cfg \<noteq> 0 \<and>
      (\<forall>j. roundRuns ?ttc j \<longrightarrow> belowThreshold cfg (matchCountBefore fs j) (fs j))"
  have quiet: "\<forall>j\<ge>0. roundRuns ?ttc j \<longrightarrow> belowThreshold cfg (matchCountBefore fs j) (fs j)"
    using h by simp
  have first: "0 = matchCountBefore fs 0"
    by simp
  have "filterLoop cfg fs ?ttc 0 0 = Inr False"
    using filterLoop_exhausts [where fs = fs and k = 0, OF quiet roundRuns_0 first] .
  then show "filterMatch cfg fs = Inr False"
    using h by (simp add: filterMatch_def Let_def)
qed

theorem expiry_defaults_witness:
  "fst (waitForSellSignal exampleConfig (\<lambda>k. Some 100000000) ''MINT'' Map.empty) = True
   \<and> filterMatch exampleConfig (\<lambda>k. if k = 1 then Match else NoMatch) = Inr False"
proof -
  have s0: "90000000 = (case Map.empty ''MINT'' of None \<Rightarrow> initialStopLoss exampleConfig | Some s \<Rightarrow> s)"
    by (simp add: initialStopLoss_def exampleConfig_def bn_div_def)
  have cfg: "priceCheckInterval exampleConfig \<noteq> 0" "priceCheckDuration exampleConfig \<noteq> 0"
    "filterCheckInterval exampleConfig \<noteq> 0" "filterCheckDuration exampleConfig \<noteq> 0"
    by (simp_all add: exampleConfig_def)
  show ?thesis
    using expiry_defaults [where cfg = exampleConfig and qs = "\<lambda>k. Some 100000000"
        and key = "''MINT''" and m = Map.empty and ?s0.0 = 90000000
        and fs = "\<lambda>k. if k = 1 then Match else NoMatch"]
      s0 cfg exampleConfig_flat_quiet exampleConfig_one_match
    by simp
qed

section \<open>The max-loss cutoff\<close>

text \<open>
  Claim C7. With \<open>skipSellingIfLostMoreThan > 0\<close>, a round that fetches an amount strictly
  below \<open>quoteAmount * skipSellingIfLostMoreThan / 100\<close> (integer division on raw units)
  ends the loop with false and the mint's watermark deleted, whatever the round, the
  stop-loss and the map; so does the whole check when the rounds before did not leave
  the loop. In particular, for a cutoff of 50 percent and an entry amount of 100, an exit
  amount of 49 in the first round returns false and clears the watermark.
\<close>

theorem max_loss_cutoff:
  "(0 < skipSellingIfLostMoreThan cfg \<and> qs k = Some a \<and>
      a < bn_div (quoteAmount cfg * skipSellingIfLostMoreThan cfg) 100 \<longrightarrow>
      exitLoop cfg qs key ttc tp k stop m = (False, m(key := None)))
   \<and> (priceCheckInterval cfg \<noteq> 0 \<and> priceCheckDuration cfg \<noteq> 0 \<and>
      s0 = (case m key of None \<Rightarrow> initialStopLoss cfg | Some s \<Rightarrow> s) \<and>
      roundRuns (of_int (priceCheckDuration cfg) / of_int (priceCheckInterval cfg)) k \<and>
      (\<forall>j<k. noSignal cfg (takeProfitAmount cfg) (stopLossBefore cfg qs s0 j) (qs j)) \<and>
      0 < skipSellingIfLostMoreThan cfg \<and> qs k = Some a \<and>
      a < bn_div (quoteAmount cfg * skipSellingIfLostMoreThan cfg) 100 \<longrightarrow>
      waitForSellSignal cfg qs key m = (False, m(key := None)))
   \<and> (priceCheckInterval cfg \<noteq> 0 \<and> priceCheckDuration cfg \<noteq> 0 \<and> 0 < c \<and>
      quoteAmount cfg = 100 * c \<and> skipSellingIfLostMoreThan cfg = 50 \<and> qs 0 = Some (49 * c) \<longrightarrow>
      waitForSellSignal cfg qs key m = (False, m(key := None)))"
proof (intro conjI impI)
  assume "0 < skipSellingIfLostMoreThan cfg \<and> qs k = Some a \<and>
      a < bn_div (quoteAmount cfg * skipSellingIfLostMoreThan cfg) 100"
  then have "qs k = Some a" and "lostTooMuch cfg a"
    by (simp_all add: lostTooMuch_def stopSellingAmount_def)
  then show "exitLoop cfg qs key ttc tp k stop m = (False, m(key := None))"
    by (rule exitLoop_abort)
next
  let ?ttc = "of_int (priceCheckDuration cfg) / of_int (priceCheckInterval cfg) :: rat"
  assume h: "priceCheckInterval cfg \<noteq> 0 \<and> priceCheckDuration cfg \<noteq> 0 \<and>
      s0 = (case m key of None \<Rightarrow> initialStopLoss cfg | Some s \<Rightarrow> s) \<and>
      roundRuns ?ttc k \<and>
      (\<forall>j<k. noSignal cfg (takeProfitAmount cfg) (stopLossBefore cfg qs s0 j) (qs j)) \<and>
      0 < skipSellingIfLostMoreThan cfg \<and> qs k = Some a \<and>
      a < bn_div (quoteAmount cfg * skipSellingIfLostMoreThan cfg) 100"
  let ?m = "m(key \<mapsto> s0)"
  have start: "waitForSellSignal cfg qs key m = exitLoop cfg qs key ?ttc (takeProfitAmount cfg) 0 s0 ?m"
    using h by (intro waitForSellSignal_start) simp_all
  have stored: "?m key = Some s0"
    by simp
  have quiet: "\<forall>j<k. noSignal cfg (takeProfitAmount cfg) (stopLossBefore cfg qs s0 j) (qs j)"
    and runs: "roundRuns ?ttc k"
    using h by blast+
  have "exitLoop cfg qs key ?ttc (takeProfitAmount cfg) 0 s0 ?m =
      exitLoop cfg qs key ?ttc (takeProfitAmount cfg) k (stopLossBefore cfg qs s0 k)
        (?m(key \<mapsto> stopLossBefore cfg qs s0 k))"
    using exitLoop_reaches [where m = ?m and key = key, OF stored quiet runs] .
  also have "\<dots> = (False, (?m(key \<mapsto> stopLossBefore cfg qs s0 k))(key := None))"
    using h by (intro exitLoop_abort [where a = a]) (simp_all add: lostTooMuch_def stopSellingAmount_def)
  finally show "waitForSellSignal cfg qs key m = (False, m(key := None))"
    using start by simp
next
  let ?ttc = "of_int (priceCheckDuration cfg) / of_int (priceCheckInterval cfg) :: rat"
  assume h: "priceCheckInterval cfg \<noteq> 0 \<and> priceCheckDuration cfg \<noteq> 0 \<and> 0 < c \<and>
      quoteAmount cfg = 100 * c \<and> skipSellingIfLostMoreThan cfg = 50 \<and> qs 0 = Some (49 * c)"
  define s0 where "s0 = (case m key of None \<Rightarrow> initialStopLoss cfg | Some s \<Rightarrow> s)"
  have start: "waitForSellSignal cfg qs key m =
      exitLoop cfg qs key ?ttc (takeProfitAmount cfg) 0 s0 (m(key \<mapsto> s0))"
    using h s0_def by (intro waitForSellSignal_start) simp_all
  have "stopSellingAmount cfg = bn_div ((50 * c) * 100) 100"
    using h by (simp add: stopSellingAmount_def)
  also have "\<dots> = 50 * c"
    using h by (intro bn_div_percent) simp
  finally have "lostTooMuch cfg (49 * c)"
    using h by (simp add: lostTooMuch_def)
  then have "exitLoop cfg qs key ?ttc (takeProfitAmount cfg) 0 s0 (m(key \<mapsto> s0)) =
      (False, (m(key \<mapsto> s0))(key := None))"
    using h by (intro exitLoop_abort [where a = "49 * c"]) simp_all
  then show "waitForSellSignal cfg qs key m = (False, m(key := None))"
    using start by simp
qed

theorem max_loss_cutoff_witness:
  "waitForSellSignal (exampleConfig\<lparr>quoteAmount := 100\<rparr>) (\<lambda>k. Some 49) ''MINT''
      [''MINT'' \<mapsto> 90, ''OTHER'' \<mapsto> 7] = (False, [''OTHER'' \<mapsto> 7])
   \<and> waitForSellSignal (exampleConfig\<lparr>quoteAmount := 100\<rparr>) dropsSecond ''MINT'' Map.empty =
      (False, Map.empty)
   \<and> exitLoop (exampleConfig\<lparr>quoteAmount := 100\<rparr>) dropsSecond ''MINT'' 3 110 (Suc 0) 90
      [''MINT'' \<mapsto> 90] = (False, Map.empty)"
proof -
  let ?cfg = "exampleConfig\<lparr>quoteAmount := 100\<rparr>"
  have "[''MINT'' \<mapsto> 90, ''OTHER'' \<mapsto> 7](''MINT'' := None) = [''OTHER'' \<mapsto> (7::int)]"
    by (rule ext) simp
  then have first: "waitForSellSignal ?cfg (\<lambda>k. Some 49) ''MINT''
      [''MINT'' \<mapsto> 90, ''OTHER'' \<mapsto> 7] = (False, [''OTHER'' \<mapsto> 7])"
    using max_loss_cutoff [where cfg = ?cfg and c = 1
        and qs = "\<lambda>k. Some 49" and key = "''MINT''" and m = "[''MINT'' \<mapsto> 90, ''OTHER'' \<mapsto> 7]"]
    by (simp add: exampleConfig_def)
  have s0: "initialStopLoss ?cfg = 90" and tp: "takeProfitAmount ?cfg = 110"
    by (simp_all add: initialStopLoss_def takeProfitAmount_def exampleConfig_def bn_div_def)
  have quiet: "\<forall>j<Suc 0. noSignal ?cfg (takeProfitAmount ?cfg) (stopLossBefore ?cfg dropsSecond 90 j)
      (dropsSecond j)"
    by (simp add: takeProfitAmount_def noSignal_def roundStop_def raisedStop_def lostTooMuch_def
        stopSellingAmount_def dropsSecond_def exampleConfig_def bn_div_def)
  have runs: "roundRuns (of_int (priceCheckDuration ?cfg) / of_int (priceCheckInterval ?cfg)) (Suc 0)"
    by (simp add: roundRuns_def exampleConfig_def)
  have second: "waitForSellSignal ?cfg dropsSecond ''MINT'' Map.empty = (False, Map.empty)"
    using max_loss_cutoff [where cfg = ?cfg and qs = dropsSecond and key = "''MINT''"
        and m = Map.empty and ?s0.0 = 90 and k = "Suc 0" and a = 49] quiet runs s0
    by (simp add: dropsSecond_def exampleConfig_def bn_div_def)
  have third: "exitLoop ?cfg dropsSecond ''MINT'' 3 110 (Suc 0) 90 [''MINT'' \<mapsto> 90] =
      (False, Map.empty)"
    using max_loss_cutoff [where cfg = ?cfg and qs = dropsSecond and key = "''MINT''"
        and m = "[''MINT'' \<mapsto> 90]" and k = "Suc 0" and a = 49 and ttc = 3 and tp = 110 and stop = 90]
    by (simp add: dropsSecond_def exampleConfig_def bn_div_def)
  show ?thesis
    using first second third by blast
qed

section \<open>The trailing stop\<close>

text \<open>
  Claim C8. The trailing step replaces the stop-loss by the candidate
  \<open>amountOut - amountOut * stopLoss / 100\<close> only when trailing is enabled and the
  candidate is strictly greater, and stores it under the mint then; so the stop-loss and
  the stored watermark never go down in a step. Across the rounds of one check the
  stop-loss on entry to a round is non-decreasing in the round number, it is the stored
  watermark whenever the loop gets to that round, and at the end of the loop the
  watermark is either deleted or not below the one the loop started with.
\<close>

theorem trailing_stop_monotone:
  "trailing cfg key stop m a =
     (if trailingStopLoss cfg \<and> stop < a - bn_div (a * stopLoss cfg) 100
      then (a - bn_div (a * stopLoss cfg) 100, m(key \<mapsto> a - bn_div (a * stopLoss cfg) 100))
      else (stop, m))
   \<and> stop \<le> fst (trailing cfg key stop m a)
   \<and> (m key = Some stop \<longrightarrow>
        (\<exists>s'\<ge>stop. snd (trailing cfg key stop m a) key = Some s'))
   \<and> (j \<le> k \<longrightarrow> stopLossBefore cfg qs s0 j \<le> stopLossBefore cfg qs s0 k)
   \<and> (m key = Some s0 \<and> roundRuns ttc k \<and>
        (\<forall>i<k. noSignal cfg tp (stopLossBefore cfg qs s0 i) (qs i)) \<longrightarrow>
        exitLoop cfg qs key ttc tp 0 s0 m =
          exitLoop cfg qs key ttc tp k (stopLossBefore cfg qs s0 k)
            (m(key \<mapsto> stopLossBefore cfg qs s0 k)))
   \<and> (m key = Some stop \<longrightarrow>
        snd (exitLoop cfg qs key ttc tp k stop m) key = None \<or>
        (\<exists>s\<ge>stop. snd (exitLoop cfg qs key ttc tp k stop m) key = Some s))"
proof (intro conjI impI)
  show "trailing cfg key stop m a =
     (if trailingStopLoss cfg \<and> stop < a - bn_div (a * stopLoss cfg) 100
      then (a - bn_div (a * stopLoss cfg) 100, m(key \<mapsto> a - bn_div (a * stopLoss cfg) 100))
      else (stop, m))"
    by (simp add: trailing_def Let_def)
  show "stop \<le> fst (trailing cfg key stop m a)"
    by (simp add: trailing_fst raisedStop_ge)
next
  assume "m key = Some stop"
  then have "snd (trailing cfg key stop m a) key = Some (raisedStop cfg stop a)"
    by (simp add: trailing_snd)
  then show "\<exists>s'\<ge>stop. snd (trailing cfg key stop m a) key = Some s'"
    using raisedStop_ge [of stop cfg a] by blast
next
  assume "j \<le> k"
  then show "stopLossBefore cfg qs s0 j \<le> stopLossBefore cfg qs s0 k"
    by (rule stopLossBefore_mono)
next
  assume h: "m key = Some s0 \<and> roundRuns ttc k \<and>
      (\<forall>i<k. noSignal cfg tp (stopLossBefore cfg qs s0 i) (qs i))"
  then have stored: "m key = Some s0" and runs: "roundRuns ttc k"
    and quiet: "\<forall>i<k. noSignal cfg tp (stopLossBefore cfg qs s0 i) (qs i)"
    by simp_all
  show "exitLoop cfg qs key ttc tp 0 s0 m =
      exitLoop cfg qs key ttc tp k (stopLossBefore cfg qs s0 k)
        (m(key \<mapsto> stopLossBefore cfg qs s0 k))"
    using exitLoop_reaches [where m = m and key = key, OF stored quiet runs] .
next
  assume "m key = Some stop"
  then show "snd (exitLoop cfg qs key ttc tp k stop m) key = None \<or>
      (\<exists>s\<ge>stop. snd (exitLoop cfg qs key ttc tp k stop m) key = Some s)"
    by (rule exitLoop_watermark)
qed

theorem trailing_stop_monotone_witness:
  "trailing exampleConfig ''MINT'' 90000000 [''MINT'' \<mapsto> 90000000] 105000000 =
      (94500000, [''MINT'' \<mapsto> 94500000])
   \<and> trailing exampleConfig ''MINT'' 94500000 [''MINT'' \<mapsto> 94500000] 100000000 =
      (94500000, [''MINT'' \<mapsto> 94500000])
   \<and> stopLossBefore exampleConfig (\<lambda>k. Some 105000000) 90000000 0 \<le>
      stopLossBefore exampleConfig (\<lambda>k. Some 105000000) 90000000 (Suc 0)
   \<and> stopLossBefore exampleConfig (\<lambda>k. Some 105000000) 90000000 (Suc 0) = 94500000
   \<and> exitLoop exampleConfig (\<lambda>k. Some 105000000) ''MINT'' 3 110000000 0 90000000
        [''MINT'' \<mapsto> 90000000] =
      exitLoop exampleConfig (\<lambda>k. Some 105000000) ''MINT'' 3 110000000 (Suc 0) 94500000
        [''MINT'' \<mapsto> 94500000]
   \<and> (snd (exitLoop exampleConfig (\<lambda>k. Some 105000000) ''MINT'' 3 110000000 0 90000000
          [''MINT'' \<mapsto> 90000000]) ''MINT'' = None
      \<or> (\<exists>s\<ge>90000000. snd (exitLoop exampleConfig (\<lambda>k. Some 105000000) ''MINT'' 3 110000000 0
          90000000 [''MINT'' \<mapsto> 90000000]) ''MINT'' = Some s))"
proof -
  let ?qs = "\<lambda>k::nat. Some (105000000::int)"
  note step1 = trailing_stop_monotone [where cfg = exampleConfig and key = "''MINT''"
      and stop = 90000000 and m = "[''MINT'' \<mapsto> 90000000]" and a = 105000000 and j = 0
      and k = "Suc 0" and qs = ?qs and ?s0.0 = 90000000 and ttc = 3 and tp = 110000000]
  note step2 = trailing_stop_monotone [where cfg = exampleConfig and key = "''MINT''"
      and stop = 94500000 and m = "[''MINT'' \<mapsto> 94500000]" and a = 100000000 and j = 0 and k = 0]
  have next_stop: "stopLossBefore exampleConfig ?qs 90000000 (Suc 0) = 94500000"
    by (simp add: roundStop_def raisedStop_def exampleConfig_def bn_div_def)
  have t1: "trailing exampleConfig ''MINT'' 90000000 [''MINT'' \<mapsto> 90000000] 105000000 =
      (94500000, [''MINT'' \<mapsto> 94500000])"
    using step1 by (simp add: exampleConfig_def bn_div_def)
  have t2: "trailing exampleConfig ''MINT'' 94500000 [''MINT'' \<mapsto> 94500000] 100000000 =
      (94500000, [''MINT'' \<mapsto> 94500000])"
    using step2 by (simp add: exampleConfig_def bn_div_def)
  have mono: "stopLossBefore exampleConfig ?qs 90000000 0 \<le>
      stopLossBefore exampleConfig ?qs 90000000 (Suc 0)"
    using step1 by blast
  have quiet: "\<forall>i<Suc 0. noSignal exampleConfig 110000000
      (stopLossBefore exampleConfig ?qs 90000000 i) (?qs i)"
    using exampleConfig_rising_quiet by simp
  have runs: "roundRuns 3 (Suc 0)"
    by (simp add: roundRuns_def)
  have "exitLoop exampleConfig ?qs ''MINT'' 3 110000000 0 90000000 [''MINT'' \<mapsto> 90000000] =
      exitLoop exampleConfig ?qs ''MINT'' 3 110000000 (Suc 0)
        (stopLossBefore exampleConfig ?qs 90000000 (Suc 0))
        ([''MINT'' \<mapsto> 90000000](''MINT'' \<mapsto> stopLossBefore exampleConfig ?qs 90000000 (Suc 0)))"
    using step1 quiet runs by simp
  moreover have "roundStop exampleConfig 90000000 (Some 105000000) = 94500000"
    by (simp add: roundStop_def raisedStop_def exampleConfig_def bn_div_def)
  ultimately have reach: "exitLoop exampleConfig ?qs ''MINT'' 3 110000000 0 90000000 [''MINT'' \<mapsto> 90000000] =
      exitLoop exampleConfig ?qs ''MINT'' 3 110000000 (Suc 0) 94500000 [''MINT'' \<mapsto> 94500000]"
    by simp
  have final: "snd (exitLoop exampleConfig ?qs ''MINT'' 3 110000000 0 90000000
        [''MINT'' \<mapsto> 90000000]) ''MINT'' = None
      \<or> (\<exists>s\<ge>90000000. snd (exitLoop exampleConfig ?qs ''MINT'' 3 110000000 0
        90000000 [''MINT'' \<mapsto> 90000000]) ''MINT'' = Some s)"
    using trailing_stop_monotone [where cfg = exampleConfig and key = "''MINT''"
        and stop = 90000000 and m = "[''MINT'' \<mapsto> 90000000]" and qs = ?qs and ttc = 3
        and tp = 110000000 and k = 0]
    by simp
  show ?thesis
    using t1 t2 mono next_stop reach final by blast
qed

section \<open>Failure of a sell\<close>

text \<open>
  When an exception leaves the \<^verbatim>\<open>try\<close> block of \<^verbatim>\<open>sell\<close> and the mint has an active trade,
  the \<^verbatim>\<open>catch\<close> block closes the trade with exit amount 0, exit fee 0 and reason
  \<^verbatim>\<open>sell_failed\<close>, which makes its profit the negated entry amount and entry fee, and adds
  that profit to the balance. When the balance refresh of the \<^verbatim>\<open>finally\<close> block returns,
  the block hands the closed trade to the journal under the next sequence id with the
  refreshed balance (it is appended when the write succeeds), removes the trade from the
  active-trades map and takes the sell out of the count of sells in flight.
\<close>

lemma sell_failure_closes_trade:
  assumes "sellTry cfg env key (b\<lparr>sellExecutionCount := sellExecutionCount b + 1\<rparr>) = Thrown b1"
    and "trades b key = Some t"
    and "newBalance env = Some bal"
  shows "trades (sellCatch key b1) key = Some (close t 0 0 ''sell_failed'')
     \<and> state (close t 0 0 ''sell_failed'') = Closed
     \<and> exitAmount (close t 0 0 ''sell_failed'') = 0
     \<and> exitFee (close t 0 0 ''sell_failed'') = 0
     \<and> reason (close t 0 0 ''sell_failed'') = ''sell_failed''
     \<and> profit (close t 0 0 ''sell_failed'') = - entryAmount t - entryFee t
     \<and> balance (sellCatch key b1) = balance b + profit (close t 0 0 ''sell_failed'')
     \<and> sell cfg env key b = Completed (reached (sell cfg env key b))
     \<and> journal (reached (sell cfg env key b)) =
         completeAndLog (journalWriteOk env) (close t 0 0 ''sell_failed'') bal
           (tradesCount b + 1) (journal b)
     \<and> (journalWriteOk env \<longrightarrow>
         journal (reached (sell cfg env key b)) =
           journal b @ [\<lparr>entryId = tradesCount b + 1, entryBalance = bal,
                         entryTrade = close t 0 0 ''sell_failed''\<rparr>])
     \<and> tradesCount (reached (sell cfg env key b)) = tradesCount b + 1
     \<and> trades (reached (sell cfg env key b)) key = None
     \<and> balance (reached (sell cfg env key b)) = bal
     \<and> sellExecutionCount (reached (sell cfg env key b)) = sellExecutionCount b"
proof -
  let ?b0 = "b\<lparr>sellExecutionCount := sellExecutionCount b + 1\<rparr>"
  let ?t = "close t 0 0 ''sell_failed''"
  have b1: "b1 = ?b0"
    using assms(1) by (rule sellTry_Thrown)
  have caught: "sellCatch key b1 =
      ?b0\<lparr>trades := (trades b)(key \<mapsto> ?t), balance := balance b + profit ?t\<rparr>"
    using assms(2) b1 by (simp add: sellCatch_def Let_def)
  have whole: "sell cfg env key b = sellFinally env key (sellCatch key b1)"
    using assms(1) by (simp add: sell_def Let_def)
  have closed: "state ?t = Closed" "exitAmount ?t = 0" "exitFee ?t = 0"
    "reason ?t = ''sell_failed''" "profit ?t = - entryAmount t - entryFee t"
    by (simp_all add: close_def)
  have final: "sellFinally env key (sellCatch key b1) =
      Completed (?b0\<lparr>trades := (trades b)(key := None), balance := bal,
          tradesCount := tradesCount b + 1,
          journal := completeAndLog (journalWriteOk env) ?t bal
                       (tradesCount b + 1) (journal b),
          sellExecutionCount := sellExecutionCount b\<rparr>)"
    using assms(3) by (simp add: caught sellFinally_def Let_def)
  show ?thesis
    using closed by (simp add: whole final completeAndLog_def) (simp add: caught)
qed

text \<open>The finally block with a rejecting balance refresh: nothing of it takes effect.\<close>

lemma sellFinally_rejected: "newBalance env = None \<Longrightarrow> sellFinally env key b = Thrown b"
  by (simp add: sellFinally_def)

text \<open>
  Claim C9. When the balance refresh at the head of the \<^verbatim>\<open>finally\<close> block rejects, the
  block ends with that exception and changes nothing, whatever the state. So for a sell
  of an open position whose pool keys do not resolve, the \<^verbatim>\<open>catch\<close> block closes the trade
  as \<^verbatim>\<open>sell_failed\<close> with exit amount 0 and adds its profit to the balance, and then the
  exception of the refresh leaves \<^verbatim>\<open>sell\<close>: the closed trade is still in the active-trades
  map, the journal has no entry, the sequence id is not advanced and the sell still
  counts as in flight. The same sell with a refresh that returns journals the trade
  under sequence id 1, removes it from the map and is no longer counted.
\<close>

theorem sell_refresh_rejected_skips_cleanup:
  "sellFinally (env\<lparr>newBalance := None\<rparr>) key b = Thrown b
   \<and> sell exampleConfig (failingSellEnv\<lparr>newBalance := None\<rparr>) ''MINT''
        ((newBot exampleConfig)\<lparr>balance := 5, trades := [''MINT'' \<mapsto> openTrade]\<rparr>) =
      Thrown ((newBot exampleConfig)
        \<lparr>balance := 5 + profit (close openTrade 0 0 ''sell_failed''),
         trades := [''MINT'' \<mapsto> close openTrade 0 0 ''sell_failed''],
         sellExecutionCount := 1\<rparr>)
   \<and> profit (close openTrade 0 0 ''sell_failed'') = - (101 / 100)
   \<and> journal (newBot exampleConfig) = []
   \<and> tradesCount (newBot exampleConfig) = 0
   \<and> sell exampleConfig failingSellEnv ''MINT''
        ((newBot exampleConfig)\<lparr>balance := 5, trades := [''MINT'' \<mapsto> openTrade]\<rparr>) =
      Completed ((newBot exampleConfig)
        \<lparr>balance := 4, tradesCount := 1, trades := Map.empty,
         journal := [\<lparr>entryId = 1, entryBalance = 4,
                      entryTrade = close openTrade 0 0 ''sell_failed''\<rparr>]\<rparr>)"
proof (intro conjI)
  let ?b = "(newBot exampleConfig)\<lparr>balance := 5, trades := [''MINT'' \<mapsto> openTrade]\<rparr>"
  show "sellFinally (env\<lparr>newBalance := None\<rparr>) key b = Thrown b"
    by (rule sellFinally_rejected) simp
  show "sell exampleConfig (failingSellEnv\<lparr>newBalance := None\<rparr>) ''MINT'' ?b =
      Thrown ((newBot exampleConfig)
        \<lparr>balance := 5 + profit (close openTrade 0 0 ''sell_failed''),
         trades := [''MINT'' \<mapsto> close openTrade 0 0 ''sell_failed''],
         sellExecutionCount := 1\<rparr>)"
    by (simp add: sell_def sellTry_def sellCatch_def sellFinally_def failingSellEnv_def
        newBot_def Let_def)
  show "profit (close openTrade 0 0 ''sell_failed'') = - (101 / 100)"
    by (simp add: close_def openTrade_def)
  show "journal (newBot exampleConfig) = []" and "tradesCount (newBot exampleConfig) = 0"
    by (simp_all add: newBot_def)
  show "sell exampleConfig failingSellEnv ''MINT'' ?b =
      Completed ((newBot exampleConfig)
        \<lparr>balance := 4, tradesCount := 1, trades := Map.empty,
         journal := [\<lparr>entryId = 1, entryBalance = 4,
                      entryTrade = close openTrade 0 0 ''sell_failed''\<rparr>]\<rparr>)"
    by (simp add: sell_def sellTry_def sellCatch_def sellFinally_def completeAndLog_def
        failingSellEnv_def newBot_def Let_def)
qed

section \<open>The watermark after expiry\<close>

text \<open>
  Claim C10. When every round of the budget either fails to obtain a quote or ends
  without abort and without trigger, the check returns true and the mint still has a
  watermark in the map, not below the one the check started with; the other entries are
  as before. Conversely, when the mint has no watermark after a check, some round of the
  budget fetched an amount that was under the max-loss cutoff, under the stop-loss in
  force, or over the take-profit threshold.
\<close>

theorem expiry_keeps_watermark:
  assumes "priceCheckInterval cfg \<noteq> 0" and "priceCheckDuration cfg \<noteq> 0"
    and "s0 = (case m key of None \<Rightarrow> initialStopLoss cfg | Some s \<Rightarrow> s)"
  shows "((\<forall>j. roundRuns (of_int (priceCheckDuration cfg) / of_int (priceCheckInterval cfg)) j \<longrightarrow>
             noSignal cfg (takeProfitAmount cfg) (stopLossBefore cfg qs s0 j) (qs j)) \<longrightarrow>
          (\<exists>s\<ge>s0. waitForSellSignal cfg qs key m = (True, m(key \<mapsto> s))))
       \<and> (snd (waitForSellSignal cfg qs key m) key = None \<longrightarrow>
          (\<exists>j a. roundRuns (of_int (priceCheckDuration cfg) / of_int (priceCheckInterval cfg)) j \<and>
             qs j = Some a \<and>
             (lostTooMuch cfg a \<or> a < roundStop cfg (stopLossBefore cfg qs s0 j) (qs j) \<or>
              a > takeProfitAmount cfg)))"
proof (intro conjI impI)
  assume "\<forall>j. roundRuns (of_int (priceCheckDuration cfg) / of_int (priceCheckInterval cfg)) j \<longrightarrow>
      noSignal cfg (takeProfitAmount cfg) (stopLossBefore cfg qs s0 j) (qs j)"
  with assms show "\<exists>s\<ge>s0. waitForSellSignal cfg qs key m = (True, m(key \<mapsto> s))"
    by (rule waitForSellSignal_expires)
next
  let ?ttc = "of_int (priceCheckDuration cfg) / of_int (priceCheckInterval cfg) :: rat"
  assume gone: "snd (waitForSellSignal cfg qs key m) key = None"
  show "\<exists>j a. roundRuns ?ttc j \<and> qs j = Some a \<and>
      (lostTooMuch cfg a \<or> a < roundStop cfg (stopLossBefore cfg qs s0 j) (qs j) \<or>
       a > takeProfitAmount cfg)"
  proof (rule ccontr)
    assume none: "\<not> (\<exists>j a. roundRuns ?ttc j \<and> qs j = Some a \<and>
        (lostTooMuch cfg a \<or> a < roundStop cfg (stopLossBefore cfg qs s0 j) (qs j) \<or>
         a > takeProfitAmount cfg))"
    have "\<forall>j. roundRuns ?ttc j \<longrightarrow>
        noSignal cfg (takeProfitAmount cfg) (stopLossBefore cfg qs s0 j) (qs j)"
    proof (intro allI impI)
      fix j
      assume "roundRuns ?ttc j"
      then show "noSignal cfg (takeProfitAmount cfg) (stopLossBefore cfg qs s0 j) (qs j)"
        using none by (cases "qs j") (auto simp add: noSignal_def)
    qed
    with assms have "\<exists>s\<ge>s0. waitForSellSignal cfg qs key m = (True, m(key \<mapsto> s))"
      by (rule waitForSellSignal_expires)
    then show False
      using gone by auto
  qed
qed

theorem expiry_keeps_watermark_witness:
  "(\<exists>s\<ge>90000000. waitForSellSignal exampleConfig (\<lambda>k. Some 100000000) ''MINT'' Map.empty =
      (True, [''MINT'' \<mapsto> s]))
   \<and> (\<exists>j a. roundRuns 3 j \<and> Some 110000001 = Some a \<and>
      (lostTooMuch exampleConfig a \<or>
       a < roundStop exampleConfig
             (stopLossBefore exampleConfig (\<lambda>k. Some 110000001) 90000000 j) (Some 110000001) \<or>
       a > takeProfitAmount exampleConfig))"
proof -
  have cfg: "priceCheckInterval exampleConfig \<noteq> 0" "priceCheckDuration exampleConfig \<noteq> 0"
    by (simp_all add: exampleConfig_def)
  have s0: "90000000 = (case Map.empty ''MINT'' of None \<Rightarrow> initialStopLoss exampleConfig | Some s \<Rightarrow> s)"
    by (simp add: initialStopLoss_def exampleConfig_def bn_div_def)
  have ttc: "rat_of_int (priceCheckDuration exampleConfig) / rat_of_int (priceCheckInterval exampleConfig) = 3"
    by (simp add: exampleConfig_def)
  have kept: "\<exists>s\<ge>90000000. waitForSellSignal exampleConfig (\<lambda>k. Some 100000000) ''MINT'' Map.empty =
      (True, [''MINT'' \<mapsto> s])"
    using expiry_keeps_watermark [OF cfg s0, of "\<lambda>k. Some 100000000"] exampleConfig_flat_quiet
    by simp
  have gone: "snd (waitForSellSignal exampleConfig (\<lambda>k. Some 110000001) ''MINT'' Map.empty) ''MINT'' = None"
    by (simp add: exampleConfig_take_profit)
  have "\<exists>j a. roundRuns 3 j \<and> Some 110000001 = Some a \<and>
      (lostTooMuch exampleConfig a \<or>
       a < roundStop exampleConfig
             (stopLossBefore exampleConfig (\<lambda>k. Some 110000001) 90000000 j) (Some 110000001) \<or>
       a > takeProfitAmount exampleConfig)"
    using expiry_keeps_watermark [OF cfg s0, of "\<lambda>k. Some 110000001"] gone
    unfolding ttc by blast
  with kept show ?thesis
    by blast
qed

end
